theory Spec2Isabelle
  imports Complex_Main "HOL-Library.Word" "HOL-Library.Sublist"
begin

section \<open>Python values shared by the notebooks\<close>

text \<open>
  The exceptions the modelled cells can raise. Every \<^verbatim>\<open>raise\<close> of the Python
  becomes a value of this type.
\<close>

datatype error =
    ValueError
  | IndexError
  | KeyError
  | TypeError
  | ZeroDivisionError
  | OverflowError
  | OSError
  | JSONDecodeError

text \<open>\<^verbatim>\<open>str(i)\<close> for a non-negative integer: its decimal digits.\<close>

definition digit_char :: "nat \<Rightarrow> char" where
  "digit_char d = char_of (48 + d)"

fun str_nat :: "nat \<Rightarrow> string" where
  "str_nat n = (if n < 10 then [digit_char n] else str_nat (n div 10) @ [digit_char (n mod 10)])"

declare str_nat.simps [simp del]

subsection \<open>Python floats\<close>

text \<open>
  Where a claim depends on the value of a float, the float arithmetic is written out. A
  float is held by its exact rational value. \<open>round_half_even\<close> rounds to the nearest
  integer, a tie going to the even one. \<open>fl\<close> rounds a rational to the nearest binary64
  number, a tie going to the even significand: for \<open>2 ^ e \<le> |q| < 2 ^ (e + 1)\<close> the result
  is a multiple of \<open>2 ^ (e - 52)\<close>. \<open>bits n\<close> is the number of binary digits of \<open>n\<close>, and
  \<open>ilog2 q\<close> the exponent \<open>e\<close> of a positive \<open>q\<close>. For \<open>fl\<close> only the range of normal
  numbers is covered, which holds every value the notebooks compute with it. A literal, a
  sum, a product and a quotient are each rounded once.
\<close>

definition round_half_even :: "rat \<Rightarrow> int" where
  "round_half_even q =
     (let f = \<lfloor>q\<rfloor>; r = q - of_int f
      in if r < 1 / 2 then f else if 1 / 2 < r then f + 1 else if even f then f else f + 1)"

function bits :: "int \<Rightarrow> int" where
  "bits n = (if n \<le> 0 then 0 else 1 + bits (n div 2))"
  by pat_completeness auto
termination
  by (relation "measure nat") auto

declare bits.simps [simp del]

definition pow2 :: "int \<Rightarrow> rat" where
  "pow2 k = (if 0 \<le> k then 2 ^ nat k else 1 / 2 ^ nat (- k))"

definition ilog2 :: "rat \<Rightarrow> int" where
  "ilog2 q = (if 1 \<le> q then bits \<lfloor>q\<rfloor> - 1 else - bits (\<lceil>1 / q\<rceil> - 1))"

definition fl :: "rat \<Rightarrow> rat" where
  "fl q =
     (if q = 0 then 0
      else let e = ilog2 \<bar>q\<bar>;
               m = round_half_even (\<bar>q\<bar> * pow2 (52 - e))
           in sgn q * of_int m * pow2 (e - 52))"

definition fadd :: "rat \<Rightarrow> rat \<Rightarrow> rat" where
  "fadd a b = fl (a + b)"

definition fmul :: "rat \<Rightarrow> rat \<Rightarrow> rat" where
  "fmul a b = fl (a * b)"

definition fdiv :: "rat \<Rightarrow> rat \<Rightarrow> rat" where
  "fdiv a b = fl (a / b)"

text \<open>
  Storing a Python float in a 32-bit float field rounds it to the nearest binary32 number:
  24 bits of significand, and below \<open>2 ^ (- 126)\<close> the fixed spacing \<open>2 ^ (- 149)\<close> of
  the subnormal numbers. A value of magnitude \<open>2 ^ 128 - 2 ^ 103\<close> or more has no finite
  binary32 neighbour; what is stored then is not modelled, and \<open>in_float32_range\<close> says
  that a value stays below that bound.
\<close>

definition to_float32 :: "rat \<Rightarrow> rat" where
  "to_float32 q =
     (if q = 0 then 0
      else let e = max (ilog2 \<bar>q\<bar>) (- 126);
               m = round_half_even (\<bar>q\<bar> * pow2 (23 - e))
           in sgn q * of_int m * pow2 (e - 23))"

definition in_float32_range :: "rat \<Rightarrow> bool" where
  "in_float32_range q = (\<bar>q\<bar> < 2 ^ 128 - 2 ^ 103)"

section \<open>hello-pipe-mode: writing the dataset as TFRecord shards\<close>

subsection \<open>The serialized example\<close>

text \<open>
  A \<^verbatim>\<open>tf.train.Example\<close> holds a map from feature names to features, and a feature is
  one of three lists. Reading \<^verbatim>\<open>feature[key].float_list.value\<close> creates the entry when
  it is absent and selects the float list. The float list is a list of 32-bit floats: the
  rows of \<^verbatim>\<open>x\<close> are NumPy \<^verbatim>\<open>float64\<close> values, and \<^verbatim>\<open>extend\<close> stores each of them
  rounded to binary32. Labels come from a NumPy \<^verbatim>\<open>int64\<close> array, and \<^verbatim>\<open>int(y[i])\<close>
  reads the signed value.
\<close>

datatype feature = BytesList "string list" | FloatList "rat list" | Int64List "int list"

type_synonym example = "string \<rightharpoonup> feature"

type_synonym label = "64 word"

definition py_int :: "label \<Rightarrow> int" where
  "py_int l = sint l"

definition float_list_extend :: "example \<Rightarrow> string \<Rightarrow> rat list \<Rightarrow> example" where
  "float_list_extend ex k vs =
     ex(k \<mapsto> FloatList ((case ex k of Some (FloatList old) \<Rightarrow> old | _ \<Rightarrow> [])
                          @ map to_float32 vs))"

definition int64_list_append :: "example \<Rightarrow> string \<Rightarrow> int \<Rightarrow> example" where
  "int64_list_append ex k v =
     ex(k \<mapsto> Int64List ((case ex k of Some (Int64List old) \<Rightarrow> old | _ \<Rightarrow> []) @ [v]))"

text \<open>The body of the loop of \<^verbatim>\<open>convert_to_tfr\<close>, from a fresh example to the record written.\<close>

definition make_example :: "rat list \<Rightarrow> label \<Rightarrow> example" where
  "make_example xi yi =
     int64_list_append (float_list_extend Map.empty ''features'' xi) ''label'' (py_int yi)"

subsection \<open>convert_to_tfr\<close>

text \<open>
  The local files are a map from path to the records of the file, in the order written.
  \<^verbatim>\<open>TFRecordWriter(out_file)\<close> starts the file empty; every \<^verbatim>\<open>write\<close> appends one
  record. \<^verbatim>\<open>x[i]\<close> is in range for every \<^verbatim>\<open>i\<close> of \<^verbatim>\<open>range(len(x))\<close>; \<^verbatim>\<open>y[i]\<close>
  raises IndexError when \<^verbatim>\<open>y\<close> is shorter, and the records written so far stay in the
  file.
\<close>

type_synonym files = "string \<rightharpoonup> example list"

fun write_records ::
  "rat list list \<Rightarrow> label list \<Rightarrow> nat list \<Rightarrow> example list \<Rightarrow> error option \<times> example list" where
  "write_records x y [] w = (None, w)"
| "write_records x y (i # rest) w =
     (if i < length y then write_records x y rest (w @ [make_example (x ! i) (y ! i)])
      else (Some IndexError, w))"

definition convert_to_tfr ::
  "rat list list \<Rightarrow> label list \<Rightarrow> string \<Rightarrow> files \<Rightarrow> error option \<times> files" where
  "convert_to_tfr x y out_file fs =
     (let num_samples = length x;
          (e, w) = write_records x y [0..<num_samples] []
      in (e, fs(out_file \<mapsto> w)))"

subsection \<open>save_to_n_files\<close>

text \<open>
  \<^verbatim>\<open>np.array_split(ary, n)\<close> is NumPy's: it raises ValueError unless \<^verbatim>\<open>n > 0\<close>; with
  \<^verbatim>\<open>Neach, extras = divmod(len(ary), n)\<close> the first \<^verbatim>\<open>extras\<close> sections have
  \<^verbatim>\<open>Neach + 1\<close> rows and the others \<^verbatim>\<open>Neach\<close>; the division points are the running
  sums of these sizes, and section \<^verbatim>\<open>i\<close> is the slice
  \<^verbatim>\<open>ary[div_points[i]:div_points[i + 1]]\<close>.
\<close>

definition section_sizes :: "nat \<Rightarrow> nat \<Rightarrow> nat list" where
  "section_sizes Ntotal Nsections =
     (let Neach_section = Ntotal div Nsections; extras = Ntotal mod Nsections
      in 0 # replicate extras (Neach_section + 1) @ replicate (Nsections - extras) Neach_section)"

fun cumsum_from :: "nat \<Rightarrow> nat list \<Rightarrow> nat list" where
  "cumsum_from acc [] = []"
| "cumsum_from acc (s # ss) = (acc + s) # cumsum_from (acc + s) ss"

definition cumsum :: "nat list \<Rightarrow> nat list" where
  "cumsum ss = cumsum_from 0 ss"

definition py_slice :: "'a list \<Rightarrow> nat \<Rightarrow> nat \<Rightarrow> 'a list" where
  "py_slice ary st end = take (end - st) (drop st ary)"

definition array_split :: "'a list \<Rightarrow> int \<Rightarrow> error + 'a list list" where
  "array_split ary indices_or_sections =
     (if indices_or_sections \<le> 0 then Inl ValueError
      else let Nsections = nat indices_or_sections;
               div_points = cumsum (section_sizes (length ary) Nsections)
           in Inr (map (\<lambda>i. py_slice ary (div_points ! i) (div_points ! (i + 1))) [0..<Nsections]))"

text \<open>\<^verbatim>\<open>'./data/{}/{}{}.tfrecords'.format(channel, channel, i)\<close>\<close>

definition shard_path :: "string \<Rightarrow> nat \<Rightarrow> string" where
  "shard_path channel i = ''./data/'' @ channel @ ''/'' @ channel @ str_nat i @ ''.tfrecords''"

fun save_loop ::
  "rat list list list \<Rightarrow> label list list \<Rightarrow> string \<Rightarrow> nat list \<Rightarrow> files \<Rightarrow> error option \<times> files" where
  "save_loop split_x split_y channel [] fs = (None, fs)"
| "save_loop split_x split_y channel (i # rest) fs =
     (case convert_to_tfr (split_x ! i) (split_y ! i) (shard_path channel i) fs of
        (Some e, fs') \<Rightarrow> (Some e, fs')
      | (None, fs') \<Rightarrow> save_loop split_x split_y channel rest fs')"

definition save_to_n_files ::
  "rat list list \<Rightarrow> label list \<Rightarrow> int \<Rightarrow> string \<Rightarrow> files \<Rightarrow> error option \<times> files" where
  "save_to_n_files x y n_files channel fs =
     (case array_split x n_files of
        Inl e \<Rightarrow> (Some e, fs)
      | Inr split_x \<Rightarrow>
          (case array_split y n_files of
             Inl e \<Rightarrow> (Some e, fs)
           | Inr split_y \<Rightarrow> save_loop split_x split_y channel [0..<nat n_files] fs))"

section \<open>Batch predictions: scoring the prediction files\<close>

subsection \<open>Parsed prediction files\<close>

text \<open>
  What \<^verbatim>\<open>json.load\<close> returns. An integer literal becomes a Python \<^verbatim>\<open>int\<close> of any
  size, and a literal with a fraction or an exponent becomes a float, held by its exact
  value (the infinities and NaN, which \<^verbatim>\<open>json.load\<close> also accepts, are left out); the
  items of a dict are kept in order. Opening or parsing a file can fail, so the local files are a
  function from the path to an error or to the parsed document.
\<close>

datatype json =
    JNull
  | JBool bool
  | JInt int
  | JFloat rat
  | JStr string
  | JArr "json list"
  | JObj "(string \<times> json) list"

type_synonym prediction_files = "string \<Rightarrow> error + json"

text \<open>\<^verbatim>\<open>entry.split('/')\<close>: the pieces between the separators, empty pieces included.\<close>

fun split_on :: "char \<Rightarrow> string \<Rightarrow> string list" where
  "split_on c [] = [[]]"
| "split_on c (x # xs) =
     (if x = c then [] # split_on c xs
      else (case split_on c xs of [] \<Rightarrow> [[x]] | w # ws \<Rightarrow> (x # w) # ws))"

text \<open>\<^verbatim>\<open>xs[i]\<close> for a non-negative index, and \<^verbatim>\<open>xs.index(v)\<close>.\<close>

definition getitem :: "'a list \<Rightarrow> nat \<Rightarrow> error + 'a" where
  "getitem xs i = (if i < length xs then Inr (xs ! i) else Inl IndexError)"

fun list_index :: "'a list \<Rightarrow> 'a \<Rightarrow> error + nat" where
  "list_index [] v = Inl ValueError"
| "list_index (x # xs) v =
     (if x = v then Inr 0
      else (case list_index xs v of Inl e \<Rightarrow> Inl e | Inr i \<Rightarrow> Inr (Suc i)))"

text \<open>
  \<^verbatim>\<open>jstr['predictions']\<close>: a dict is looked up by key, every other value refuses a
  string subscript.
\<close>

definition subscript :: "json \<Rightarrow> string \<Rightarrow> error + json" where
  "subscript j k =
     (case j of
        JObj items \<Rightarrow> (case map_of items k of None \<Rightarrow> Inl KeyError | Some v \<Rightarrow> Inr v)
      | _ \<Rightarrow> Inl TypeError)"

text \<open>
  \<^verbatim>\<open>for v in j\<close>: a list yields its elements, a dict its keys, a string its characters;
  nothing else can be iterated.
\<close>

definition iterate :: "json \<Rightarrow> error + json list" where
  "iterate j =
     (case j of
        JArr xs \<Rightarrow> Inr xs
      | JObj items \<Rightarrow> Inr (map (\<lambda>kv. JStr (fst kv)) items)
      | JStr s \<Rightarrow> Inr (map (\<lambda>c. JStr [c]) s)
      | _ \<Rightarrow> Inl TypeError)"

text \<open>
  \<^verbatim>\<open>float('%.3f' % item)\<close>. The format takes a float as it is, converts an \<^verbatim>\<open>int\<close> to
  the nearest float first, raising OverflowError when that is \<open>2 ^ 1024\<close> or more, and
  takes \<^verbatim>\<open>True\<close> and \<^verbatim>\<open>False\<close> as 1 and 0; anything else is a TypeError. It prints the
  float rounded to three decimals, a tie going to the even neighbour, and \<^verbatim>\<open>float\<close>
  reads the decimal back as the nearest float.
\<close>

definition round3 :: "rat \<Rightarrow> rat" where
  "round3 q = of_int (round_half_even (q * 1000)) / 1000"

definition format3 :: "json \<Rightarrow> error + rat" where
  "format3 item =
     (case item of
        JFloat d \<Rightarrow> Inr (fl (round3 d))
      | JInt n \<Rightarrow>
          (if 2 ^ 1024 \<le> \<bar>fl (of_int n)\<bar> then Inl OverflowError
           else Inr (fl (round3 (fl (of_int n)))))
      | JBool b \<Rightarrow> Inr (if b then 1 else 0)
      | _ \<Rightarrow> Inl TypeError)"

text \<open>
  \<^verbatim>\<open>[float('%.3f'%(item)) for sublist in jstr['predictions'] for item in sublist]\<close>,
  left to right, stopping at the first error.
\<close>

fun format_items :: "json list \<Rightarrow> error + rat list" where
  "format_items [] = Inr []"
| "format_items (item # rest) =
     (case format3 item of
        Inl e \<Rightarrow> Inl e
      | Inr v \<Rightarrow> (case format_items rest of Inl e \<Rightarrow> Inl e | Inr vs \<Rightarrow> Inr (v # vs)))"

fun flatten_sublists :: "json list \<Rightarrow> error + rat list" where
  "flatten_sublists [] = Inr []"
| "flatten_sublists (sub # rest) =
     (case iterate sub of
        Inl e \<Rightarrow> Inl e
      | Inr items \<Rightarrow>
          (case format_items items of
             Inl e \<Rightarrow> Inl e
           | Inr vs \<Rightarrow> (case flatten_sublists rest of Inl e \<Rightarrow> Inl e | Inr ws \<Rightarrow> Inr (vs @ ws))))"

definition flatten_predictions :: "json \<Rightarrow> error + rat list" where
  "flatten_predictions predictions =
     (case iterate predictions of Inl e \<Rightarrow> Inl e | Inr subs \<Rightarrow> flatten_sublists subs)"

text \<open>\<^verbatim>\<open>np.argmax\<close>: the first index of the largest value; an empty array is a ValueError.\<close>

fun argmax_from :: "nat \<Rightarrow> rat \<Rightarrow> nat \<Rightarrow> rat list \<Rightarrow> nat" where
  "argmax_from best bv i [] = best"
| "argmax_from best bv i (v # vs) =
     (if bv < v then argmax_from i v (Suc i) vs else argmax_from best bv (Suc i) vs)"

definition argmax :: "rat list \<Rightarrow> error + nat" where
  "argmax results =
     (case results of [] \<Rightarrow> Inl ValueError | v # vs \<Rightarrow> Inr (argmax_from 0 v 1 vs))"

subsection \<open>The scoring loop\<close>

text \<open>
  The body of the \<^verbatim>\<open>try\<close> up to the first statement that changes the counters. Any of
  its steps can raise; nothing after them can.
\<close>

record scored =
  class_index :: nat
  actual_index :: nat
  predicted_label :: string
  actual_label :: string

definition score_entry :: "string list \<Rightarrow> prediction_files \<Rightarrow> string \<Rightarrow> error + scored" where
  "score_entry class_name_list files entry =
     (case getitem (split_on CHR ''/'' entry) 1 of
        Inl e \<Rightarrow> Inl e
      | Inr actual_label' \<Rightarrow>
     (case list_index class_name_list actual_label' of
        Inl e \<Rightarrow> Inl e
      | Inr actual_index' \<Rightarrow>
     (case files entry of
        Inl e \<Rightarrow> Inl e
      | Inr jstr \<Rightarrow>
     (case subscript jstr ''predictions'' of
        Inl e \<Rightarrow> Inl e
      | Inr predictions \<Rightarrow>
     (case flatten_predictions predictions of
        Inl e \<Rightarrow> Inl e
      | Inr results \<Rightarrow>
     (case argmax results of
        Inl e \<Rightarrow> Inl e
      | Inr class_index' \<Rightarrow>
     (case getitem class_name_list class_index' of
        Inl e \<Rightarrow> Inl e
      | Inr predicted_label' \<Rightarrow>
          Inr \<lparr>class_index = class_index', actual_index = actual_index',
               predicted_label = predicted_label', actual_label = actual_label'\<rparr>)))))))"

text \<open>
  The variables of the cell; the counter \<^verbatim>\<open>total\<close> is written \<open>total'\<close>. \<^verbatim>\<open>printed\<close> is
  what \<^verbatim>\<open>print(e)\<close> in the handler has written so far.
\<close>

record score_state =
  total' :: nat
  correct :: nat
  predicted :: "nat list"
  actual :: "nat list"
  printed :: "error list"

definition initial_state :: score_state where
  "initial_state = \<lparr>total' = 0, correct = 0, predicted = [], actual = [], printed = []\<rparr>"

text \<open>
  One iteration: \<^verbatim>\<open>except Exception as e: print(e); continue\<close> takes over from any
  failing step, before the counters have been touched.
\<close>

definition score_step :: "string list \<Rightarrow> prediction_files \<Rightarrow> score_state \<Rightarrow> string \<Rightarrow> score_state" where
  "score_step class_name_list files st entry =
     (case score_entry class_name_list files entry of
        Inl e \<Rightarrow> st\<lparr>printed := printed st @ [e]\<rparr>
      | Inr r \<Rightarrow>
          (let is_correct = (predicted_label r = actual_label r) \<or> False
           in st\<lparr>predicted := predicted st @ [class_index r],
                 actual := actual st @ [actual_index r],
                 correct := (if is_correct then correct st + 1 else correct st),
                 total' := total' st + 1\<rparr>))"

fun scoring_loop ::
  "string list \<Rightarrow> prediction_files \<Rightarrow> string list \<Rightarrow> score_state \<Rightarrow> score_state" where
  "scoring_loop class_name_list files [] st = st"
| "scoring_loop class_name_list files (entry # rest) st =
     scoring_loop class_name_list files rest (score_step class_name_list files st entry)"

text \<open>
  \<^verbatim>\<open>accuracy = correct / total\<close>: true division of two integers, which yields the float
  nearest to their quotient.
\<close>

definition accuracy :: "score_state \<Rightarrow> error + rat" where
  "accuracy st =
     (if total' st = 0 then Inl ZeroDivisionError
      else Inr (fl (of_nat (correct st) / of_nat (total' st))))"

text \<open>The two cells in sequence, from the paths that \<^verbatim>\<open>glob\<close> returned.\<close>

definition batch_accuracy :: "string list \<Rightarrow> prediction_files \<Rightarrow> string list \<Rightarrow> error + rat" where
  "batch_accuracy class_name_list files entries =
     accuracy (scoring_loop class_name_list files entries initial_state)"

subsection \<open>The serving image of the batch model\<close>

text \<open>
  The setup cell picks the registry account and the repository from the framework
  version; the model cell formats the image name from them, the region and the version,
  with a suffix for the processor type.
\<close>

definition TF_ACCOUNT_NUM :: "string \<Rightarrow> string" where
  "TF_ACCOUNT_NUM TF_FRAMEWORK_VERSION =
     (if TF_FRAMEWORK_VERSION = ''1.12'' then ''520713654638'' else ''763104351884'')"

definition TF_CONTAINER_NAME :: "string \<Rightarrow> string" where
  "TF_CONTAINER_NAME TF_FRAMEWORK_VERSION =
     (if TF_FRAMEWORK_VERSION = ''1.12'' then ''sagemaker-tensorflow-serving''
      else ''tensorflow-inference'')"

definition batch_instance_type :: "bool \<Rightarrow> string" where
  "batch_instance_type USE_GPU_INSTANCE =
     (if USE_GPU_INSTANCE then ''ml.p3.2xlarge'' else ''ml.c5.4xlarge'')"

definition framework_image :: "string \<Rightarrow> bool \<Rightarrow> string \<Rightarrow> string" where
  "framework_image TF_FRAMEWORK_VERSION USE_GPU_INSTANCE region_name =
     (if USE_GPU_INSTANCE
      then TF_ACCOUNT_NUM TF_FRAMEWORK_VERSION @ ''.dkr.ecr.'' @ region_name @ ''.amazonaws.com/''
           @ TF_CONTAINER_NAME TF_FRAMEWORK_VERSION @ '':'' @ TF_FRAMEWORK_VERSION @ ''-gpu''
      else TF_ACCOUNT_NUM TF_FRAMEWORK_VERSION @ ''.dkr.ecr.'' @ region_name @ ''.amazonaws.com/''
           @ TF_CONTAINER_NAME TF_FRAMEWORK_VERSION @ '':'' @ TF_FRAMEWORK_VERSION @ ''-cpu'')"

text \<open>
  Reading an image name \<^verbatim>\<open><registry>/<repository>:<tag>\<close> back: the registry runs to
  the first slash and begins with the account up to the first dot; the repository runs
  from there to the next colon; the tag is the rest.
\<close>

definition image_registry :: "string \<Rightarrow> string" where
  "image_registry img = takeWhile (\<lambda>c. c \<noteq> CHR ''/'') img"

definition image_account :: "string \<Rightarrow> string" where
  "image_account img = takeWhile (\<lambda>c. c \<noteq> CHR ''.'') img"

definition image_repository :: "string \<Rightarrow> string" where
  "image_repository img =
     takeWhile (\<lambda>c. c \<noteq> CHR '':'') (drop 1 (dropWhile (\<lambda>c. c \<noteq> CHR ''/'') img))"

definition image_tag :: "string \<Rightarrow> string" where
  "image_tag img =
     drop 1 (dropWhile (\<lambda>c. c \<noteq> CHR '':'') (drop 1 (dropWhile (\<lambda>c. c \<noteq> CHR ''/'') img)))"

section \<open>hello-pipe-mode: the data in S3\<close>

text \<open>
  The object store maps a bucket and a key to the object's content.
  \<^verbatim>\<open>Bucket(b).objects.filter(Prefix=p).delete()\<close> removes the objects of bucket \<^verbatim>\<open>b\<close>
  whose key starts with \<^verbatim>\<open>p\<close>. \<^verbatim>\<open>upload_data(path, key_prefix)\<close> puts every file under
  the local folder at the key \<^verbatim>\<open>key_prefix + '/' + <relative path>\<close>.
\<close>

type_synonym 'c s3 = "string \<times> string \<rightharpoonup> 'c"

definition objects_filter_delete :: "string \<Rightarrow> string \<Rightarrow> 'c s3 \<Rightarrow> 'c s3" where
  "objects_filter_delete bucket Prefix store =
     (\<lambda>(b, k). if b = bucket \<and> prefix Prefix k then None else store (b, k))"

fun upload_data :: "string \<Rightarrow> (string \<times> 'c) list \<Rightarrow> string \<Rightarrow> 'c s3 \<Rightarrow> 'c s3" where
  "upload_data bucket [] key_prefix store = store"
| "upload_data bucket ((rel, content) # rest) key_prefix store =
     upload_data bucket rest key_prefix (store((bucket, key_prefix @ ''/'' @ rel) \<mapsto> content))"

definition data_prefix :: string where
  "data_prefix = ''data/DEMO-hello-pipe-mode''"

text \<open>The first statement of the upload cell (\<^verbatim>\<open># clear out any old data\<close>).\<close>

definition clear_old_data :: "string \<Rightarrow> 'c s3 \<Rightarrow> 'c s3" where
  "clear_old_data bucket store = objects_filter_delete bucket (data_prefix @ ''/'') store"

text \<open>The upload cell: clear, then upload the local \<^verbatim>\<open>data\<close> folder.\<close>

definition upload_cell :: "string \<Rightarrow> (string \<times> 'c) list \<Rightarrow> 'c s3 \<Rightarrow> 'c s3" where
  "upload_cell bucket local_data store =
     upload_data bucket local_data data_prefix (clear_old_data bucket store)"

text \<open>The S3 statement of the last clean-up cell.\<close>

definition teardown_s3 :: "string \<Rightarrow> 'c s3 \<Rightarrow> 'c s3" where
  "teardown_s3 bucket store = objects_filter_delete bucket (data_prefix @ ''/'') store"

section \<open>hello-pipe-mode: configuration and the two-stage split\<close>

subsection \<open>The configuration cell\<close>

text \<open>
  \<^verbatim>\<open>MODE\<close> selects the size of the run: \<^verbatim>\<open>'fast-demo'\<close>, or one of the two long runs,
  which differ only in the number of training instances and the job name.
\<close>

record config =
  TRAIN_INSTANCE_COUNT :: nat
  NUM_SAMPLES :: nat
  NUM_FEATURES :: nat
  NUM_FILES :: int
  NUM_EPOCHS :: nat
  BASE_JOB_NAME :: string
  BATCH_SIZE :: nat
  INPUT_MODE :: string

definition configure :: "string \<Rightarrow> config" where
  "configure MODE =
     (if MODE = ''fast-demo''
      then \<lparr>TRAIN_INSTANCE_COUNT = 1, NUM_SAMPLES = 10000, NUM_FEATURES = 50, NUM_FILES = 6,
            NUM_EPOCHS = 200, BASE_JOB_NAME = ''tf-pipe-fast-demo'',
            BATCH_SIZE = 64, INPUT_MODE = ''Pipe''\<rparr>
      else if MODE = ''one-slow-node''
      then \<lparr>TRAIN_INSTANCE_COUNT = 1, NUM_SAMPLES = 90000, NUM_FEATURES = 5000, NUM_FILES = 21,
            NUM_EPOCHS = 5000, BASE_JOB_NAME = ''tf-pipe-one-slow-node'',
            BATCH_SIZE = 64, INPUT_MODE = ''Pipe''\<rparr>
      else \<lparr>TRAIN_INSTANCE_COUNT = 3, NUM_SAMPLES = 90000, NUM_FEATURES = 5000, NUM_FILES = 21,
            NUM_EPOCHS = 5000, BASE_JOB_NAME = ''tf-pipe-speedy-cluster-'' @ str_nat 3,
            BATCH_SIZE = 64, INPUT_MODE = ''Pipe''\<rparr>)"

subsection \<open>train_test_split\<close>

text \<open>
  \<^verbatim>\<open>train_test_split(X, y, test_size=t, random_state=seed)\<close> is scikit-learn's. With a
  float \<^verbatim>\<open>t\<close> and no \<^verbatim>\<open>train_size\<close> it takes \<^verbatim>\<open>n_test = ceil(t * n_samples)\<close> and
  \<^verbatim>\<open>n_train = n_samples - n_test\<close>, draws one permutation of the indices from the
  random state, gives the first \<^verbatim>\<open>n_test\<close> of it to the test part and the next
  \<^verbatim>\<open>n_train\<close> to the train part, and returns the train part before the test part, for
  \<^verbatim>\<open>X\<close> and then for \<^verbatim>\<open>y\<close>. It raises ValueError for arrays of different lengths, for a
  fraction outside \<open>(0, 1)\<close> and for an empty train part. The permutation that the seeded
  random state draws for \<open>n\<close> indices is a parameter.
\<close>

definition train_test_split ::
  "(nat \<Rightarrow> nat list) \<Rightarrow> 'a list \<Rightarrow> 'b list \<Rightarrow> rat
     \<Rightarrow> error + ('a list \<times> 'a list \<times> 'b list \<times> 'b list)" where
  "train_test_split permutation X Y test_size =
     (if length X \<noteq> length Y then Inl ValueError
      else if test_size \<le> 0 \<or> 1 \<le> test_size then Inl ValueError
      else let n_samples = length X;
               n_test = nat \<lceil>fmul test_size (of_nat n_samples)\<rceil>;
               n_train = n_samples - n_test
           in if n_train = 0 then Inl ValueError
              else let p = permutation n_samples;
                       ind_test = take n_test p;
                       ind_train = take n_train (drop n_test p)
                   in Inr (map ((!) X) ind_train, map ((!) X) ind_test,
                           map ((!) Y) ind_train, map ((!) Y) ind_test))"

subsection \<open>The split cell\<close>

text \<open>
  \<^verbatim>\<open>val_size = 0.20\<close> and \<^verbatim>\<open>test_size = 0.10\<close> are the floats nearest to the literals.
  The second call rebinds \<^verbatim>\<open>X_test\<close> and \<^verbatim>\<open>y_test\<close> to its train part and binds
  \<^verbatim>\<open>X_val\<close> and \<^verbatim>\<open>y_val\<close> to its test part.
\<close>

definition val_size :: rat where
  "val_size = fl (20 / 100)"

definition test_size :: rat where
  "test_size = fl (10 / 100)"

record ('a, 'b) datasets =
  X_train :: "'a list"
  X_test :: "'a list"
  X_val :: "'a list"
  y_train :: "'b list"
  y_test :: "'b list"
  y_val :: "'b list"

definition two_stage_split ::
  "(nat \<Rightarrow> nat list) \<Rightarrow> 'a list \<Rightarrow> 'b list \<Rightarrow> error + ('a, 'b) datasets" where
  "two_stage_split permutation X1 Y1 =
     (case train_test_split permutation X1 Y1 (fadd test_size val_size) of
        Inl e \<Rightarrow> Inl e
      | Inr (X_train', X_test', y_train', y_test') \<Rightarrow>
          (case train_test_split permutation X_test' y_test'
                  (fdiv test_size (fadd test_size val_size)) of
             Inl e \<Rightarrow> Inl e
           | Inr (X_test'', X_val', y_test'', y_val') \<Rightarrow>
               Inr \<lparr>X_train = X_train', X_test = X_test'', X_val = X_val',
                    y_train = y_train', y_test = y_test'', y_val = y_val'\<rparr>))"

section \<open>The notebooks as sequences of cells\<close>

text \<open>
  Running a notebook from top to bottom performs the effects of its code cells in order.
  An event is one effect on the world outside the kernel: a shell line, a library call
  that touches files, or a call to the managed service. A cell is the list of the events
  it performs, and a notebook the concatenation of its cells. Cells that only import,
  assign or define are left out, since they perform nothing.
\<close>

datatype event =
    EditTrainScript
  | ShowFile string
  | MakeClassification nat nat
  | TrainTestSplit
  | Rmtree string
  | Makedirs string
  | SaveToNFiles string int
  | S3DeletePrefix string
  | UploadData string string
  | Fit "string option" nat
  | Deploy
  | Predict nat
  | PrintAccuracy
  | DeleteEndpoint
  | ReplaceRequirementsGpu
  | CreateModel string
  | S3RemoveRecursive string
  | LocalRemove string
  | Transform
  | TransformWait
  | S3Download
  | ScoreFiles
  | PlotConfusionMatrix
  | GetTrainValDataframes
  | CopyFiles string
  | S3Sync
  | S3List
  | Setup
  | ReplaceInference
  | PredictFile string

subsection \<open>hello-pipe-mode\<close>













subsection \<open>Batch predictions\<close>






subsection \<open>Training and hosting\<close>











subsection \<open>The stated order\<close>

text \<open>
  The steps of the specification: preparing the dataset, uploading it, training, deploying
  or batch scoring, evaluating, tearing down. An event belongs to at most one step.
  Removing local folders or S3 objects belongs to none by itself, since the notebooks do
  it both to clear old data before a run and to clean up after it; showing files, editing
  or replacing scripts and listing a bucket belong to none either.
\<close>

datatype step = Prepare | Upload | Train | Serve | Evaluate | Teardown

fun rank :: "step \<Rightarrow> nat" where
  "rank Prepare = 0"
| "rank Upload = 1"
| "rank Train = 2"
| "rank Serve = 3"
| "rank Evaluate = 4"
| "rank Teardown = 5"

fun step_of :: "event \<Rightarrow> step option" where
  "step_of (MakeClassification n f) = Some Prepare"
| "step_of TrainTestSplit = Some Prepare"
| "step_of (Makedirs p) = Some Prepare"
| "step_of (SaveToNFiles channel n) = Some Prepare"
| "step_of GetTrainValDataframes = Some Prepare"
| "step_of (CopyFiles channel) = Some Prepare"
| "step_of (UploadData p k) = Some Upload"
| "step_of S3Sync = Some Upload"
| "step_of (Fit m n) = Some Train"
| "step_of (CreateModel img) = Some Serve"
| "step_of Deploy = Some Serve"
| "step_of Transform = Some Serve"
| "step_of TransformWait = Some Serve"
| "step_of (Predict i) = Some Evaluate"
| "step_of (PredictFile f) = Some Evaluate"
| "step_of S3Download = Some Evaluate"
| "step_of ScoreFiles = Some Evaluate"
| "step_of PrintAccuracy = Some Evaluate"
| "step_of PlotConfusionMatrix = Some Evaluate"
| "step_of DeleteEndpoint = Some Teardown"
| "step_of e = None"

text \<open>
  Two events are in order when the later one does not belong to an earlier step, and a
  run is in order when this holds for every pair of its events.
\<close>

definition in_order :: "event \<Rightarrow> event \<Rightarrow> bool" where
  "in_order a b =
     (case (step_of a, step_of b) of (Some p, Some q) \<Rightarrow> rank p \<le> rank q | _ \<Rightarrow> True)"





section \<open>Auxiliary definitions for the proofs\<close>

text \<open>
  Cutting a list into consecutive pieces of given sizes, and the section sizes of
  \<^verbatim>\<open>array_split\<close> without the leading zero. The slices that \<^verbatim>\<open>array_split\<close> takes
  between the division points are shown to be these pieces.
\<close>

fun chop :: "nat list \<Rightarrow> 'a list \<Rightarrow> 'a list list" where
  "chop [] xs = []"
| "chop (s # ss) xs = take s xs # chop ss (drop s xs)"

definition sizes :: "nat \<Rightarrow> nat \<Rightarrow> nat list" where
  "sizes N n = replicate (N mod n) (N div n + 1) @ replicate (n - N mod n) (N div n)"

text \<open>The records that iteration \<open>i\<close> of the loop of \<^verbatim>\<open>save_to_n_files\<close> writes.\<close>

definition shard_records :: "rat list list list \<Rightarrow> label list list \<Rightarrow> nat \<Rightarrow> example list" where
  "shard_records sx sy i = map (\<lambda>k. make_example (sx ! i ! k) (sy ! i ! k)) [0..<length (sx ! i)]"

text \<open>
  An entry is processed when no step of the \<^verbatim>\<open>try\<close> body raises, and is a hit when in
  addition the predicted label is the actual one.
\<close>

definition processed :: "string list \<Rightarrow> prediction_files \<Rightarrow> string \<Rightarrow> bool" where
  "processed cl files e = (\<not> isl (score_entry cl files e))"


text \<open>
  A small prediction folder used to run the definitions: the two classes of the notebook,
  one file scored right, one scored wrong, and one that does not parse. In the first file
  the two values are the floats nearest to 0.6001 and 0.6004, which both round to 0.600,
  so that the first class is predicted.
\<close>

definition sample_classes :: "string list" where
  "sample_classes = [''013.Bobolink'', ''017.Cardinal'']"

definition sample_files :: prediction_files where
  "sample_files p =
     (if p = ''batch_predictions/013.Bobolink/a.jpg.out''
      then Inr (JObj [(''predictions'',
                       JArr [JArr [JFloat (5405220272770069 / 9007199254740992),
                                   JFloat (1351980608136623 / 2251799813685248)]])])
      else if p = ''batch_predictions/017.Cardinal/b.jpg.out''
      then Inr (JObj [(''predictions'', JArr [JArr [JFloat (3 / 4), JFloat (1 / 4)]])])
      else if p = ''batch_predictions/017.Cardinal/c.jpg.out''
      then Inl JSONDecodeError
      else Inl OSError)"

definition sample_entries :: "string list" where
  "sample_entries = [''batch_predictions/013.Bobolink/a.jpg.out'',
                     ''batch_predictions/017.Cardinal/b.jpg.out'',
                     ''batch_predictions/017.Cardinal/c.jpg.out'']"

text \<open>A small object store used to run the S3 definitions.\<close>

definition sample_store :: "nat s3" where
  "sample_store = [(''b1'', ''data/DEMO-hello-pipe-mode/train0'') \<mapsto> 1,
                   (''b1'', ''data/DEMO-hello-pipe-mode-old/x'') \<mapsto> 2,
                   (''b2'', ''data/DEMO-hello-pipe-mode/train0'') \<mapsto> 3]"

section \<open>Properties of the float rounding\<close>



lemma pow2_pos: "0 < pow2 k"
  by (simp add: pow2_def)

lemma pow2_powi: "pow2 k = 2 powi k"
proof (cases "0 \<le> k")
  case True
  then show ?thesis by (simp add: pow2_def power_int_def)
next
  case False
  have "(1 :: rat) / 2 ^ nat (- k) = (1 / 2) ^ nat (- k)" by (simp only: power_one_over)
  also have "\<dots> = inverse 2 ^ nat (- k)" by (simp only: inverse_eq_divide)
  finally show ?thesis using False by (simp only: pow2_def power_int_def if_False)
qed

lemma pow2_add: "pow2 (a + b) = pow2 a * pow2 b"
  unfolding pow2_powi by (simp add: power_int_add)





lemma round_half_even_nearest:
  "\<bar>of_int (round_half_even x) - x\<bar> \<le> \<bar>of_int k - x\<bar>"
proof -
  define f where "f = \<lfloor>x\<rfloor>"
  define r where "r = x - of_int f"
  define m where "m = round_half_even x"
  have r: "0 \<le> r" "r < 1" unfolding r_def f_def by linarith+
  have mdef: "m = (if r < 1 / 2 then f else if 1 / 2 < r then f + 1
                   else if even f then f else f + 1)"
    by (simp add: m_def round_half_even_def Let_def f_def r_def)
  have at_f: "of_int f - x = - r" by (simp add: r_def)
  have at_f1: "of_int (f + 1) - x = 1 - r" by (simp add: r_def)
  have d: "\<bar>of_int m - x\<bar> = r \<and> r \<le> 1 / 2 \<or> \<bar>of_int m - x\<bar> = 1 - r \<and> 1 / 2 \<le> r"
  proof (cases "r < 1 / 2")
    case True
    then have "m = f" by (simp add: mdef)
    with at_f r True show ?thesis by simp
  next
    case False
    note nlt = this
    show ?thesis
    proof (cases "1 / 2 < r")
      case True
      then have "m = f + 1" using nlt by (simp add: mdef)
      with at_f1 r True show ?thesis by (simp only:) simp
    next
      case False
      with nlt have half: "r = 1 / 2" by simp
      have "m = f \<or> m = f + 1" using nlt False by (simp add: mdef)
      then show ?thesis
      proof
        assume "m = f"
        with at_f half show ?thesis by simp
      next
        assume "m = f + 1"
        with at_f1 half show ?thesis by (simp only:) simp
      qed
    qed
  qed
  have k: "k \<le> f \<or> f + 1 \<le> k" by linarith
  have far: "r \<le> \<bar>of_int k - x\<bar>" if "k \<le> f"
  proof -
    from that have "(of_int k :: rat) \<le> of_int f" by simp
    with at_f r show ?thesis by linarith
  qed
  have far': "1 - r \<le> \<bar>of_int k - x\<bar>" if "f + 1 \<le> k"
  proof -
    from that have "(of_int (f + 1) :: rat) \<le> of_int k" by (simp only: of_int_le_iff)
    with at_f1 r show ?thesis by linarith
  qed
  from d k far far' r have "\<bar>of_int m - x\<bar> \<le> \<bar>of_int k - x\<bar>" by linarith
  then show ?thesis by (simp only: m_def)
qed



text \<open>
  The same for the binary32 rounding of a stored feature value, of either sign.
\<close>

lemma pow2_zero: "pow2 0 = 1"
  by (simp add: pow2_def)

lemma pow2_inverse: "pow2 (- k) * pow2 k = 1"
  using pow2_add [of "- k" k] by (simp add: pow2_zero)

lemma grid_nearest:
  assumes u: "0 < u" and w: "w * u = 1"
  shows "\<bar>of_int (round_half_even (a * w)) * u - a\<bar> \<le> \<bar>of_int k * u - a\<bar>"
proof -
  define x where "x = a * w"
  have a: "a = x * u" using w by (simp add: x_def mult.assoc)
  have "of_int (round_half_even x) * u - x * u = (of_int (round_half_even x) - x) * u"
    by (simp only: left_diff_distrib)
  then have "\<bar>of_int (round_half_even x) * u - x * u\<bar> = \<bar>of_int (round_half_even x) - x\<bar> * u"
    using u by (simp add: abs_mult)
  also have "\<dots> \<le> \<bar>of_int k - x\<bar> * u"
    using round_half_even_nearest [of x k] u by simp
  also have "\<dots> = \<bar>(of_int k - x) * u\<bar>"
    using u by (simp add: abs_mult)
  also have "(of_int k - x) * u = of_int k * u - x * u" by (simp only: left_diff_distrib)
  finally have "\<bar>of_int (round_half_even x) * u - x * u\<bar> \<le> \<bar>of_int k * u - x * u\<bar>" .
  then have "\<bar>of_int (round_half_even x) * u - a\<bar> \<le> \<bar>of_int k * u - a\<bar>"
    by (simp only: a [symmetric])
  then show ?thesis by (simp only: x_def)
qed

lemma to_float32_nearest:
  "\<exists>m. to_float32 q = of_int m * pow2 (max (ilog2 \<bar>q\<bar>) (- 126) - 23) \<and>
       (\<forall>k. \<bar>to_float32 q - q\<bar> \<le> \<bar>of_int k * pow2 (max (ilog2 \<bar>q\<bar>) (- 126) - 23) - q\<bar>)"
proof -
  define e where "e = max (ilog2 \<bar>q\<bar>) (- 126)"
  define u where "u = pow2 (e - 23)"
  define w where "w = pow2 (23 - e)"
  define m where "m = round_half_even (\<bar>q\<bar> * w)"
  have u: "0 < u" by (simp add: u_def pow2_pos)
  have wu: "w * u = 1" using pow2_inverse [of "e - 23"] by (simp add: w_def u_def)
  have near: "\<bar>of_int m * u - \<bar>q\<bar>\<bar> \<le> \<bar>of_int k * u - \<bar>q\<bar>\<bar>" for k
    unfolding m_def by (rule grid_nearest [OF u wu])
  consider (zero) "q = 0" | (pos) "0 < q" | (neg) "q < 0" by linarith
  then have "\<exists>m'. to_float32 q = of_int m' * u \<and> (\<forall>k. \<bar>to_float32 q - q\<bar> \<le> \<bar>of_int k * u - q\<bar>)"
  proof cases
    case zero
    then have "to_float32 q = of_int 0 * u \<and> (\<forall>k. \<bar>to_float32 q - q\<bar> \<le> \<bar>of_int k * u - q\<bar>)"
      by (simp add: to_float32_def)
    then show ?thesis by (rule exI)
  next
    case pos
    then have v: "to_float32 q = of_int m * u"
      by (simp add: to_float32_def Let_def m_def u_def w_def e_def)
    have "\<forall>k. \<bar>to_float32 q - q\<bar> \<le> \<bar>of_int k * u - q\<bar>"
      using near pos by (simp add: v)
    with v show ?thesis by blast
  next
    case neg
    then have v: "to_float32 q = of_int (- m) * u"
      by (simp add: to_float32_def Let_def m_def u_def w_def e_def)
    have "\<bar>to_float32 q - q\<bar> \<le> \<bar>of_int k * u - q\<bar>" for k
    proof -
      have "\<bar>to_float32 q - q\<bar> = \<bar>of_int m * u - \<bar>q\<bar>\<bar>" using neg by (simp add: v)
      also have "\<dots> \<le> \<bar>of_int (- k) * u - \<bar>q\<bar>\<bar>" by (rule near)
      also have "\<dots> = \<bar>of_int k * u - q\<bar>" using neg by simp
      finally show ?thesis .
    qed
    with v show ?thesis by blast
  qed
  then show ?thesis by (simp only: u_def e_def)
qed







section \<open>Properties of the TFRecord shards\<close>

lemma cumsum_from_nth:
  "i \<le> length ss \<Longrightarrow> (a # cumsum_from a ss) ! i = a + sum_list (take i ss)"
proof (induction ss arbitrary: a i)
  case Nil
  then show ?case by simp
next
  case (Cons s ss)
  show ?case
  proof (cases i)
    case 0
    then show ?thesis by simp
  next
    case (Suc j)
    with Cons.prems have "j \<le> length ss" by simp
    from Cons.IH [OF this, of "a + s"] Suc show ?thesis by (simp add: add.assoc)
  qed
qed

lemma length_cumsum_from [simp]: "length (cumsum_from a ss) = length ss"
  by (induction ss arbitrary: a) simp_all

lemma length_chop [simp]: "length (chop ss xs) = length ss"
  by (induction ss arbitrary: xs) simp_all

lemma chop_nth:
  "i < length ss \<Longrightarrow> chop ss xs ! i = take (ss ! i) (drop (sum_list (take i ss)) xs)"
proof (induction ss arbitrary: xs i)
  case Nil
  then show ?case by simp
next
  case (Cons s ss)
  then show ?case by (cases i) (simp_all add: add.commute)
qed

lemma concat_chop: "concat (chop ss xs) = take (sum_list ss) xs"
proof (induction ss arbitrary: xs)
  case Nil
  then show ?case by simp
next
  case (Cons s ss)
  have "take s xs @ take (sum_list ss) (drop s xs) = take (s + sum_list ss) xs"
    by (simp add: take_add)
  with Cons show ?case by simp
qed

lemma map_length_chop:
  "sum_list ss \<le> length xs \<Longrightarrow> map length (chop ss xs) = ss"
  by (induction ss arbitrary: xs) auto

lemma slices_eq_chop:
  "map (\<lambda>i. py_slice xs (cumsum (0 # ss) ! i) (cumsum (0 # ss) ! (i + 1))) [0..<length ss]
     = chop ss xs"
proof (rule nth_equalityI)
  show "length (map (\<lambda>i. py_slice xs (cumsum (0 # ss) ! i) (cumsum (0 # ss) ! (i + 1))) [0..<length ss])
          = length (chop ss xs)" by simp
next
  fix i
  assume "i < length (map (\<lambda>i. py_slice xs (cumsum (0 # ss) ! i) (cumsum (0 # ss) ! (i + 1))) [0..<length ss])"
  then have i: "i < length ss" by simp
  have dp: "cumsum (0 # ss) = 0 # cumsum_from 0 ss" by (simp add: cumsum_def)
  have a: "cumsum (0 # ss) ! i = sum_list (take i ss)"
    using cumsum_from_nth [of i ss 0] i by (simp add: dp)
  have b: "cumsum (0 # ss) ! (i + 1) = sum_list (take i ss) + ss ! i"
    using cumsum_from_nth [of "Suc i" ss 0] i by (simp add: dp take_Suc_conv_app_nth)
  have b': "cumsum (0 # ss) ! Suc i = sum_list (take i ss) + ss ! i"
    using b by simp
  show "map (\<lambda>i. py_slice xs (cumsum (0 # ss) ! i) (cumsum (0 # ss) ! (i + 1))) [0..<length ss] ! i
          = chop ss xs ! i"
    using i by (simp add: a b' py_slice_def chop_nth)
qed

lemma section_sizes_eq: "section_sizes N n = 0 # sizes N n"
  by (simp add: section_sizes_def sizes_def Let_def)

lemma length_sizes: "0 < n \<Longrightarrow> length (sizes N n) = n"
  by (simp add: sizes_def less_imp_le)

lemma sum_list_sizes: "0 < n \<Longrightarrow> sum_list (sizes N n) = N"
proof -
  assume n: "0 < n"
  have le: "N mod n \<le> n" using n by (simp add: less_imp_le)
  have "N mod n * (N div n + 1) + (n - N mod n) * (N div n) = (N mod n + (n - N mod n)) * (N div n) + N mod n"
    by (simp add: algebra_simps)
  also have "\<dots> = n * (N div n) + N mod n" using le by simp
  also have "\<dots> = N" by simp
  finally show ?thesis by (simp add: sizes_def sum_list_replicate)
qed

lemma ceil_div_aux: "0 < r \<Longrightarrow> r < n \<Longrightarrow> (q * n + r + n - 1) div n = q + 1" for q r n :: nat
proof -
  assume r: "0 < r" "r < n"
  have "q * n + r + n - 1 = (r - 1) + (q + 1) * n"
    using r by (simp add: algebra_simps)
  moreover have "((r - 1) + (q + 1) * n) div n = (q + 1) + (r - 1) div n"
    using r by (intro div_mult_self1) simp
  moreover have "(r - 1) div n = 0"
    using r by simp
  ultimately show ?thesis by simp
qed

lemma ceil_div: "0 < n \<Longrightarrow> N mod n \<noteq> 0 \<Longrightarrow> (N + n - 1) div n = N div n + 1" for N n :: nat
  using ceil_div_aux [of "N mod n" n "N div n"] by simp

lemma sizes_even:
  "0 < n \<Longrightarrow> s \<in> set (sizes N n) \<Longrightarrow> s = N div n \<or> s = (N + n - 1) div n"
  using ceil_div [of n N] by (cases "N mod n = 0") (auto simp add: sizes_def)

lemma array_split_eq:
  "0 < n \<Longrightarrow> array_split xs n = Inr (chop (sizes (length xs) (nat n)) xs)"
  using slices_eq_chop [of xs "sizes (length xs) (nat n)"]
  by (simp add: array_split_def section_sizes_eq length_sizes Let_def)

lemma digit_char_inj: "a < 10 \<Longrightarrow> b < 10 \<Longrightarrow> digit_char a = digit_char b \<Longrightarrow> a = b"
proof -
  assume a: "a < 10" and b: "b < 10" and e: "digit_char a = digit_char b"
  from e have "of_char (char_of (48 + a) :: char) = (of_char (char_of (48 + b) :: char) :: nat)"
    by (simp add: digit_char_def)
  then have "(48 + a) mod 256 = (48 + b) mod 256"
    by (simp only: of_char_of)
  with a b show "a = b" by simp
qed

lemma str_nat_nonempty: "str_nat n \<noteq> []"
  by (subst str_nat.simps) simp

lemma str_nat_inj: "str_nat n = str_nat m \<Longrightarrow> n = m"
proof (induction n arbitrary: m rule: str_nat.induct)
  case (1 n)
  show ?case
  proof (cases "n < 10")
    case True
    note n = this
    show ?thesis
    proof (cases "m < 10")
      case True
      with n "1.prems" show ?thesis
        by (simp add: str_nat.simps [of n] str_nat.simps [of m] digit_char_inj)
    next
      case False
      with n "1.prems" str_nat_nonempty [of "m div 10"] show ?thesis
        by (simp add: str_nat.simps [of n] str_nat.simps [of m])
    qed
  next
    case False
    note n = this
    show ?thesis
    proof (cases "m < 10")
      case True
      with n "1.prems" str_nat_nonempty [of "n div 10"] show ?thesis
        by (simp add: str_nat.simps [of n] str_nat.simps [of m])
    next
      case False
      with n "1.prems" have e: "str_nat (n div 10) = str_nat (m div 10)"
        and d: "digit_char (n mod 10) = digit_char (m mod 10)"
        by (simp_all add: str_nat.simps [of n] str_nat.simps [of m])
      from "1.IH" [OF n e] have "n div 10 = m div 10" .
      moreover from d have "n mod 10 = m mod 10" by (intro digit_char_inj) simp_all
      ultimately show ?thesis by (metis div_mult_mod_eq)
    qed
  qed
qed

lemma shard_path_inj: "shard_path channel i = shard_path channel j \<Longrightarrow> i = j"
  by (simp add: shard_path_def str_nat_inj)

lemma write_records_ok:
  "\<forall>i\<in>set idx. i < length y \<Longrightarrow>
   write_records x y idx w = (None, w @ map (\<lambda>i. make_example (x ! i) (y ! i)) idx)"
  by (induction idx arbitrary: w) simp_all

lemma convert_to_tfr_eq:
  "length x = length y \<Longrightarrow> convert_to_tfr x y out_file fs =
         (None, fs(out_file \<mapsto> map (\<lambda>i. make_example (x ! i) (y ! i)) [0..<length x]))"
  by (simp add: convert_to_tfr_def write_records_ok)

lemma save_loop_eq:
  "\<forall>i\<in>set idx. length (sx ! i) = length (sy ! i) \<Longrightarrow>
   save_loop sx sy channel idx fs =
     (None, fold (\<lambda>i f. f(shard_path channel i \<mapsto> shard_records sx sy i)) idx fs)"
  by (induction idx arbitrary: fs) (simp_all add: convert_to_tfr_eq shard_records_def)

lemma fold_upd_lookup:
  "fold (\<lambda>i f. f(shard_path channel i \<mapsto> r i)) idx fs (shard_path channel k)
     = (if k \<in> set idx then Some (r k) else fs (shard_path channel k))"
  by (induction idx arbitrary: fs) (auto dest: shard_path_inj)

lemma fold_upd_other:
  "\<forall>i\<in>set idx. p \<noteq> shard_path channel i \<Longrightarrow>
   fold (\<lambda>i f. f(shard_path channel i \<mapsto> r i)) idx fs p = fs p"
  by (induction idx arbitrary: fs) auto

lemma concat_zip:
  "map length xss = map length yss \<Longrightarrow>
   concat (map2 zip xss yss) = zip (concat xss) (concat yss)"
proof (induction xss arbitrary: yss)
  case Nil
  then show ?case by simp
next
  case (Cons xs xss)
  then obtain ys yss' where y: "yss = ys # yss'" by (cases yss) auto
  with Cons.prems have "length xs = length ys" "map length xss = map length yss'" by simp_all
  with Cons.IH [of yss'] y show ?case by simp
qed

lemma make_example_eq:
  "make_example xi yi
     = [''features'' \<mapsto> FloatList (map to_float32 xi), ''label'' \<mapsto> Int64List [sint yi]]"
  by (simp add: make_example_def int64_list_append_def float_list_extend_def py_int_def)

lemma sample_float32: "to_float32 (3602879701896397 / 36028797018963968) = 13421773 / 134217728"
  by code_simp

text \<open>
  Claim C2 as stated fails: the record does not carry the feature vector \<open>x ! i\<close> itself.
  For the single sample whose one feature is the float 0.1, the float list of the record
  holds the binary32 number nearest to it, which is another number.
\<close>

theorem convert_to_tfr_float32_counterexample:
  "convert_to_tfr [[3602879701896397 / 36028797018963968]] [0] ''a.tfrecords'' Map.empty
     = (None, [''a.tfrecords'' \<mapsto>
          [[''features'' \<mapsto> FloatList [13421773 / 134217728],
            ''label'' \<mapsto> Int64List [0]]]]) \<and>
   [13421773 / 134217728] \<noteq> [3602879701896397 / 36028797018963968 :: rat]"
  by (simp add: convert_to_tfr_def make_example_eq sample_float32)

text \<open>
  Claim C2, amended. For sequences \<open>x\<close> and \<open>y\<close> of equal length, with every feature
  value in the range of the finite binary32 numbers, \<^verbatim>\<open>convert_to_tfr\<close> raises nothing and
  leaves in the output file exactly \<open>length x\<close> records, one per sample in index order
  \<open>0, \<dots>, length x - 1\<close>; record \<open>i\<close> has under the key \<^verbatim>\<open>features\<close> the feature vector
  \<open>x ! i\<close> with every value rounded to binary32, under the key \<^verbatim>\<open>label\<close> the single label
  \<open>int (y ! i)\<close>, and no other key. Rounded to binary32 means: a multiple of the spacing
  of the binary32 numbers at the value, and no farther from the value than any other
  multiple.
\<close>

theorem convert_to_tfr_records:
  assumes "length x = length y"
    and "\<forall>row\<in>set x. \<forall>v\<in>set row. in_float32_range v"
  shows "convert_to_tfr x y out_file fs =
           (None, fs(out_file \<mapsto>
              map (\<lambda>i. [''features'' \<mapsto> FloatList (map to_float32 (x ! i)),
                         ''label'' \<mapsto> Int64List [sint (y ! i)]])
                  [0..<length x])) \<and>
         (\<forall>v. \<exists>m. to_float32 v = of_int m * pow2 (max (ilog2 \<bar>v\<bar>) (- 126) - 23) \<and>
                   (\<forall>k. \<bar>to_float32 v - v\<bar>
                          \<le> \<bar>of_int k * pow2 (max (ilog2 \<bar>v\<bar>) (- 126) - 23) - v\<bar>))"
proof
  show "convert_to_tfr x y out_file fs =
           (None, fs(out_file \<mapsto>
              map (\<lambda>i. [''features'' \<mapsto> FloatList (map to_float32 (x ! i)),
                         ''label'' \<mapsto> Int64List [sint (y ! i)]])
                  [0..<length x]))"
    using assms(1) by (simp add: convert_to_tfr_def write_records_ok make_example_eq)
  show "\<forall>v. \<exists>m. to_float32 v = of_int m * pow2 (max (ilog2 \<bar>v\<bar>) (- 126) - 23) \<and>
                   (\<forall>k. \<bar>to_float32 v - v\<bar>
                          \<le> \<bar>of_int k * pow2 (max (ilog2 \<bar>v\<bar>) (- 126) - 23) - v\<bar>)"
    by (intro allI) (rule to_float32_nearest)
qed

text \<open>
  The amended claim at two samples: the float 0.1 with label 0, and 3 with label 1.
\<close>

theorem convert_to_tfr_records_witness:
  "length [[3602879701896397 / 36028797018963968 :: rat], [3]] = length [0 :: label, 1] \<and>
   in_float32_range (3602879701896397 / 36028797018963968) \<and> in_float32_range 3 \<and>
   convert_to_tfr [[3602879701896397 / 36028797018963968], [3]] [0, 1] ''a.tfrecords'' Map.empty
     = (None, [''a.tfrecords'' \<mapsto>
          [[''features'' \<mapsto> FloatList [to_float32 (3602879701896397 / 36028797018963968)],
            ''label'' \<mapsto> Int64List [0]],
           [''features'' \<mapsto> FloatList [to_float32 3], ''label'' \<mapsto> Int64List [1]]]])"
proof -
  have h1: "length [[3602879701896397 / 36028797018963968 :: rat], [3]] = length [0 :: label, 1]"
    by simp
  have h2: "\<forall>row\<in>set [[3602879701896397 / 36028797018963968 :: rat], [3]].
              \<forall>v\<in>set row. in_float32_range v"
    by (simp add: in_float32_range_def)
  from convert_to_tfr_records [OF h1 h2, of "''a.tfrecords''" Map.empty, THEN conjunct1]
  have "convert_to_tfr [[3602879701896397 / 36028797018963968], [3]] [0, 1] ''a.tfrecords'' Map.empty
     = (None, [''a.tfrecords'' \<mapsto>
          [[''features'' \<mapsto> FloatList [to_float32 (3602879701896397 / 36028797018963968)],
            ''label'' \<mapsto> Int64List [0]],
           [''features'' \<mapsto> FloatList [to_float32 3], ''label'' \<mapsto> Int64List [1]]]])"
    by (simp add: upt_rec)
  moreover have "in_float32_range (3602879701896397 / 36028797018963968)" "in_float32_range 3"
    by (simp_all add: in_float32_range_def)
  moreover note h1
  ultimately show ?thesis by (intro conjI)
qed

lemma map_upt_map2:
  "length a = length b \<Longrightarrow> map (\<lambda>k. f (a ! k) (b ! k)) [0..<length a] = map2 f a b"
  by (rule nth_equalityI) simp_all

text \<open>
  Claim C1. For \<open>x\<close> and \<open>y\<close> of equal length \<open>N\<close> and \<open>1 \<le> n_files \<le> N\<close>,
  \<^verbatim>\<open>save_to_n_files\<close> raises nothing and splits both arrays into exactly \<open>n_files\<close>
  shards; the shards in order concatenate to the original arrays; shard \<open>i\<close> of \<open>x\<close> and
  shard \<open>i\<close> of \<open>y\<close> have the same length, so the boundaries coincide and zipping shard by
  shard gives the original sample-label pairs; every shard has \<open>N div n_files\<close> or
  \<open>(N + n_files - 1) div n_files\<close> samples (floor and ceiling of \<open>N / n_files\<close>); file
  \<open>i\<close> of the channel holds the records of shard \<open>i\<close>, and no other path is touched.
\<close>

theorem save_to_n_files_shards:
  assumes "length x = length y" and "1 \<le> n_files" and "n_files \<le> int (length x)"
  shows "\<exists>split_x split_y fs'.
           array_split x n_files = Inr split_x \<and> array_split y n_files = Inr split_y \<and>
           save_to_n_files x y n_files channel fs = (None, fs') \<and>
           length split_x = nat n_files \<and> length split_y = nat n_files \<and>
           concat split_x = x \<and> concat split_y = y \<and>
           map length split_x = map length split_y \<and>
           concat (map2 zip split_x split_y) = zip x y \<and>
           (\<forall>s\<in>set split_x. length s = length x div nat n_files \<or>
                              length s = (length x + nat n_files - 1) div nat n_files) \<and>
           (\<forall>i<nat n_files. fs' (shard_path channel i)
                               = Some (map2 make_example (split_x ! i) (split_y ! i))) \<and>
           (\<forall>p. (\<forall>i<nat n_files. p \<noteq> shard_path channel i) \<longrightarrow> fs' p = fs p)"
proof -
  define n where "n = nat n_files"
  define ss where "ss = sizes (length x) n"
  define sx where "sx = chop ss x"
  define sy where "sy = chop ss y"
  define fs' where
    "fs' = fold (\<lambda>i f. f(shard_path channel i \<mapsto> shard_records sx sy i)) [0..<n] fs"
  have n: "0 < n" and nf: "0 < n_files" using assms(2) by (simp_all add: n_def)
  have len_ss: "length ss = n" using n by (simp add: ss_def length_sizes)
  have sum_ss: "sum_list ss = length x" using n by (simp add: ss_def sum_list_sizes)
  have ax: "array_split x n_files = Inr sx"
    using array_split_eq [OF nf, of x] by (simp add: sx_def ss_def n_def)
  have ay: "array_split y n_files = Inr sy"
    using array_split_eq [OF nf, of y] assms(1) by (simp add: sy_def ss_def n_def)
  have lx: "map length sx = ss" using sum_ss by (simp add: sx_def map_length_chop)
  have ly: "map length sy = ss" using sum_ss assms(1) by (simp add: sy_def map_length_chop)
  have lens: "length sx = n" "length sy = n" by (simp_all add: sx_def sy_def len_ss)
  have eqlen: "length (sx ! i) = length (sy ! i)" if "i < n" for i
  proof -
    have "length (sx ! i) = map length sx ! i" using that lens by simp
    also have "\<dots> = map length sy ! i" by (simp add: lx ly)
    also have "\<dots> = length (sy ! i)" using that lens by simp
    finally show ?thesis .
  qed
  have run: "save_to_n_files x y n_files channel fs = (None, fs')"
    using save_loop_eq [of "[0..<n]" sx sy channel fs] eqlen
    by (simp add: save_to_n_files_def ax ay fs'_def n_def)
  have cx: "concat sx = x" by (simp add: sx_def concat_chop sum_ss)
  have cy: "concat sy = y" using assms(1) by (simp add: sy_def concat_chop sum_ss)
  have pair: "concat (map2 zip sx sy) = zip x y"
    using concat_zip [of sx sy] by (simp add: lx ly cx cy)
  have even: "\<forall>s\<in>set sx. length s = length x div n \<or> length s = (length x + n - 1) div n"
  proof
    fix s assume "s \<in> set sx"
    then have "length s \<in> set (map length sx)" by simp
    then have "length s \<in> set (sizes (length x) n)" by (simp add: lx ss_def)
    from sizes_even [OF n this] show "length s = length x div n \<or> length s = (length x + n - 1) div n" .
  qed
  have files: "\<forall>i<n. fs' (shard_path channel i) = Some (map2 make_example (sx ! i) (sy ! i))"
  proof (intro allI impI)
    fix i assume i: "i < n"
    have "fs' (shard_path channel i) = Some (shard_records sx sy i)"
      using i by (simp add: fs'_def fold_upd_lookup)
    also have "shard_records sx sy i = map2 make_example (sx ! i) (sy ! i)"
      unfolding shard_records_def by (rule map_upt_map2 [OF eqlen [OF i]])
    finally show "fs' (shard_path channel i) = Some (map2 make_example (sx ! i) (sy ! i))" .
  qed
  have frame: "\<forall>p. (\<forall>i<n. p \<noteq> shard_path channel i) \<longrightarrow> fs' p = fs p"
    by (simp add: fs'_def fold_upd_other)
  show ?thesis
    unfolding n_def [symmetric]
    using ax ay run lens cx cy lx ly pair even files frame
    by (intro exI [of _ sx] exI [of _ sy] exI [of _ fs']) simp
qed

text \<open>
  The theorem at three samples in two files.
\<close>

theorem save_to_n_files_shards_witness:
  "length [[1::rat], [2], [3]] = length [0 :: label, 1, 0] \<and> (1::int) \<le> 2 \<and>
   (2::int) \<le> int (length [[1::rat], [2], [3]]) \<and>
   (\<exists>split_x split_y fs'.
      array_split [[1::rat], [2], [3]] 2 = Inr split_x \<and>
      array_split [0 :: label, 1, 0] 2 = Inr split_y \<and>
      save_to_n_files [[1::rat], [2], [3]] [0, 1, 0] 2 ''train'' Map.empty = (None, fs') \<and>
      concat split_x = [[1], [2], [3]] \<and> concat split_y = [0, 1, 0])"
proof -
  have h1: "length [[1::rat], [2], [3]] = length [0 :: label, 1, 0]" by simp
  have h2: "(1::int) \<le> 2" by simp
  have h3: "(2::int) \<le> int (length [[1::rat], [2], [3]])" by simp
  from save_to_n_files_shards [OF h1 h2 h3, of "''train''" Map.empty]
  obtain split_x split_y fs' where
    "array_split [[1::rat], [2], [3]] 2 = Inr split_x"
    "array_split [0 :: label, 1, 0] 2 = Inr split_y"
    "save_to_n_files [[1::rat], [2], [3]] [0, 1, 0] 2 ''train'' Map.empty = (None, fs')"
    "concat split_x = [[1], [2], [3]]" "concat split_y = [0, 1, 0]"
    by blast
  with h1 h2 h3 show ?thesis by blast
qed

section \<open>Properties of the two-stage split\<close>

subsection \<open>The sizes of the split\<close>

text \<open>
  The floats of the split cell, evaluated: the literals, the sum and the quotient passed
  as \<^verbatim>\<open>test_size\<close>, and the products whose ceilings are the test sizes.
\<close>

lemma test_size_val: "test_size = 3602879701896397 / 36028797018963968"
  by code_simp

lemma val_size_val: "val_size = 3602879701896397 / 18014398509481984"
  by code_simp

lemma first_fraction: "fadd test_size val_size = 1351079888211149 / 4503599627370496"
  by code_simp

lemma second_fraction:
  "fdiv test_size (fadd test_size val_size) = 6004799503160661 / 18014398509481984"
  by code_simp

lemma first_product_fast:
  "fmul (1351079888211149 / 4503599627370496) 10000 = 6597069766656001 / 2199023255552"
  by code_simp

lemma first_product_long:
  "fmul (1351079888211149 / 4503599627370496) 90000 = 7421703487488001 / 274877906944"
  by code_simp

lemma second_product_fast:
  "fmul (6004799503160661 / 18014398509481984) 3001 = 4399512526607701 / 4398046511104"
  by code_simp

lemma second_product_long:
  "fmul (6004799503160661 / 18014398509481984) 27001 = 2473992788464981 / 274877906944"
  by code_simp

lemma ceil_first_fast: "\<lceil>6597069766656001 / 2199023255552 :: rat\<rceil> = 3001"
  by code_simp

lemma ceil_first_long: "\<lceil>7421703487488001 / 274877906944 :: rat\<rceil> = 27001"
  by code_simp

lemma ceil_second_fast: "\<lceil>4399512526607701 / 4398046511104 :: rat\<rceil> = 1001"
  by code_simp

lemma ceil_second_long: "\<lceil>2473992788464981 / 274877906944 :: rat\<rceil> = 9001"
  by code_simp

lemma train_test_split_sizes:
  assumes "length X = length Y" and "0 < t" and "t < 1"
    and "nat \<lceil>fmul t (of_nat (length X))\<rceil> = k" and "k < length X"
    and "length (permutation (length X)) = length X"
  shows "\<exists>Xtr Xte ytr yte.
           train_test_split permutation X Y t = Inr (Xtr, Xte, ytr, yte) \<and>
           length Xtr = length X - k \<and> length Xte = k \<and>
           length ytr = length X - k \<and> length yte = k"
  using assms by (simp add: train_test_split_def Let_def min_def)

lemma first_fraction_range:
  "0 < fadd test_size val_size \<and> fadd test_size val_size < 1"
  by (simp add: first_fraction)

lemma second_fraction_range:
  "0 < fdiv test_size (fadd test_size val_size) \<and> fdiv test_size (fadd test_size val_size) < 1"
  by (simp add: second_fraction)

lemma two_stage_split_counts:
  assumes perm: "\<forall>n. length (permutation n) = n"
    and lx: "length X1 = N" and ly: "length Y1 = N"
    and k1: "nat \<lceil>fmul (fadd test_size val_size) (of_nat N)\<rceil> = k1" and k1N: "k1 < N"
    and k2: "nat \<lceil>fmul (fdiv test_size (fadd test_size val_size)) (of_nat k1)\<rceil> = k2"
    and k2k: "k2 < k1"
  shows "\<exists>d Xh yh.
           train_test_split permutation X1 Y1 (fadd test_size val_size)
             = Inr (X_train d, Xh, y_train d, yh) \<and>
           train_test_split permutation Xh yh (fdiv test_size (fadd test_size val_size))
             = Inr (X_test d, X_val d, y_test d, y_val d) \<and>
           two_stage_split permutation X1 Y1 = Inr d \<and>
           length Xh = k1 \<and>
           length (X_train d) = N - k1 \<and> length (y_train d) = N - k1 \<and>
           length (X_test d) = k1 - k2 \<and> length (y_test d) = k1 - k2 \<and>
           length (X_val d) = k2 \<and> length (y_val d) = k2"
proof -
  from train_test_split_sizes [of X1 Y1 "fadd test_size val_size" k1 permutation]
    first_fraction_range perm lx ly k1 k1N
  obtain Xtr Xh ytr yh where
    s1: "train_test_split permutation X1 Y1 (fadd test_size val_size) = Inr (Xtr, Xh, ytr, yh)"
    and l1: "length Xtr = N - k1" "length Xh = k1" "length ytr = N - k1" "length yh = k1"
    by auto
  from train_test_split_sizes
         [of Xh yh "fdiv test_size (fadd test_size val_size)" k2 permutation]
    second_fraction_range perm l1 k2 k2k
  obtain Xte Xv yte yv where
    s2: "train_test_split permutation Xh yh (fdiv test_size (fadd test_size val_size))
           = Inr (Xte, Xv, yte, yv)"
    and l2: "length Xte = k1 - k2" "length Xv = k2" "length yte = k1 - k2" "length yv = k2"
    by auto
  let ?d = "\<lparr>X_train = Xtr, X_test = Xte, X_val = Xv, y_train = ytr, y_test = yte, y_val = yv\<rparr>"
  have run: "two_stage_split permutation X1 Y1 = Inr ?d"
    by (simp add: two_stage_split_def s1 s2)
  show ?thesis
    by (rule exI [of _ ?d], rule exI [of _ Xh], rule exI [of _ yh])
       (simp add: s1 s2 run l1 l2)
qed

lemma k1_fast: "nat \<lceil>fmul (fadd test_size val_size) (of_nat 10000)\<rceil> = 3001"
  by (simp add: first_fraction first_product_fast ceil_first_fast)

lemma k2_fast: "nat \<lceil>fmul (fdiv test_size (fadd test_size val_size)) (of_nat 3001)\<rceil> = 1001"
  by (simp add: second_fraction second_product_fast ceil_second_fast)

lemma k1_long: "nat \<lceil>fmul (fadd test_size val_size) (of_nat 90000)\<rceil> = 27001"
  by (simp add: first_fraction first_product_long ceil_first_long)

lemma k2_long: "nat \<lceil>fmul (fdiv test_size (fadd test_size val_size)) (of_nat 27001)\<rceil> = 9001"
  by (simp add: second_fraction second_product_long ceil_second_long)

lemma num_samples: "NUM_SAMPLES (configure MODE) = (if MODE = ''fast-demo'' then 10000 else 90000)"
  by (simp add: configure_def)

lemma percent_fast:
  "round (100 * rat_of_nat 6999 / rat_of_nat 10000) = 70 \<and>
   round (100 * rat_of_nat 2000 / rat_of_nat 10000) = 20 \<and>
   round (100 * rat_of_nat 1001 / rat_of_nat 10000) = 10 \<and>
   round (100 * rat_of_nat 2000 / rat_of_nat 3001) = 67 \<and>
   round (100 * rat_of_nat 1001 / rat_of_nat 3001) = 33"
  by (simp add: round_def floor_eq_iff)

lemma percent_long:
  "round (100 * rat_of_nat 62999 / rat_of_nat 90000) = 70 \<and>
   round (100 * rat_of_nat 18000 / rat_of_nat 90000) = 20 \<and>
   round (100 * rat_of_nat 9001 / rat_of_nat 90000) = 10 \<and>
   round (100 * rat_of_nat 18000 / rat_of_nat 27001) = 67 \<and>
   round (100 * rat_of_nat 9001 / rat_of_nat 27001) = 33"
  by (simp add: round_def floor_eq_iff)

text \<open>
  Claim C6 as stated fails on the exact shares. For the fast run of 10000 samples the
  three sets have 6999, 2000 and 1001 samples: the training set is not 70 percent and the
  set named \<^verbatim>\<open>X_val\<close> not 10 percent of the samples, and the 3001 samples of the second
  split are not divided into two thirds and one third.
\<close>

theorem two_stage_split_exact_counterexample:
  "map_sum id (\<lambda>d. (length (X_train d), length (X_test d), length (X_val d)))
     (two_stage_split (\<lambda>n. [0..<n]) (replicate 10000 (0 :: nat)) (replicate 10000 (0 :: nat)))
     = Inr (6999, 2000, 1001) \<and>
   10 * (6999 :: nat) \<noteq> 7 * 10000 \<and> 10 * (1001 :: nat) \<noteq> 1 * 10000 \<and>
   3 * (2000 :: nat) \<noteq> 2 * 3001 \<and> 3 * (1001 :: nat) \<noteq> 1 * 3001"
proof -
  have p: "\<forall>n. length ((\<lambda>n. [0..<n]) n) = n" by simp
  have l: "length (replicate 10000 (0 :: nat)) = 10000" by simp
  from two_stage_split_counts [OF p l l k1_fast _ k2_fast]
  obtain d where
    "two_stage_split (\<lambda>n. [0..<n]) (replicate 10000 (0 :: nat)) (replicate 10000 (0 :: nat))
       = Inr d"
    "length (X_train d) = 10000 - 3001" "length (X_test d) = 3001 - 1001"
    "length (X_val d) = 1001"
    by auto
  then show ?thesis by simp
qed

text \<open>
  Claim C6, amended. For either dataset size of the notebook, and whatever permutation the
  seeded random state draws, the two calls succeed; \<^verbatim>\<open>X_train\<close> is the train part of the
  first call, \<^verbatim>\<open>X_test\<close> is the train part of the second call and \<^verbatim>\<open>X_val\<close> its test
  part, the reverse of what the names and the comment say. The training set receives one
  sample less than 70 percent of the samples (6999 of 10000, 62999 of 90000), \<^verbatim>\<open>X_test\<close>
  exactly 20 percent (2000, 18000) and \<^verbatim>\<open>X_val\<close> one sample more than 10 percent (1001,
  9001): the float sum \<^verbatim>\<open>0.10 + 0.20\<close> lies just above three tenths, so the ceiling of the
  first call takes one sample more than 30 percent. Of the second split \<^verbatim>\<open>X_test\<close> is the
  larger part, just under two thirds, and \<^verbatim>\<open>X_val\<close> the smaller, just over one third.
  To the nearest percent the shares are 70, 20 and 10, and 67 and 33.
\<close>

theorem two_stage_split_sizes:
  assumes "\<forall>n. length (permutation n) = n"
    and "length X1 = NUM_SAMPLES (configure MODE)"
    and "length Y1 = NUM_SAMPLES (configure MODE)"
  shows "\<exists>d Xh yh.
           train_test_split permutation X1 Y1 (fadd test_size val_size)
             = Inr (X_train d, Xh, y_train d, yh) \<and>
           train_test_split permutation Xh yh (fdiv test_size (fadd test_size val_size))
             = Inr (X_test d, X_val d, y_test d, y_val d) \<and>
           two_stage_split permutation X1 Y1 = Inr d \<and>
           length (X_train d) = (if MODE = ''fast-demo'' then 6999 else 62999) \<and>
           length (X_test d) = (if MODE = ''fast-demo'' then 2000 else 18000) \<and>
           length (X_val d) = (if MODE = ''fast-demo'' then 1001 else 9001) \<and>
           length (y_train d) = length (X_train d) \<and>
           length (y_test d) = length (X_test d) \<and>
           length (y_val d) = length (X_val d) \<and>
           round (100 * rat_of_nat (length (X_train d)) / rat_of_nat (length X1)) = 70 \<and>
           round (100 * rat_of_nat (length (X_test d)) / rat_of_nat (length X1)) = 20 \<and>
           round (100 * rat_of_nat (length (X_val d)) / rat_of_nat (length X1)) = 10 \<and>
           round (100 * rat_of_nat (length (X_test d)) / rat_of_nat (length Xh)) = 67 \<and>
           round (100 * rat_of_nat (length (X_val d)) / rat_of_nat (length Xh)) = 33 \<and>
           length (X_val d) < length (X_test d) \<and>
           length (X_train d) + 1 = 7 * length X1 div 10 \<and>
           length (X_test d) = 2 * length X1 div 10 \<and>
           length (X_val d) = length X1 div 10 + 1 \<and>
           3 * length (X_test d) + 2 = 2 * length Xh \<and>
           3 * length (X_val d) = length Xh + 2"
proof (cases "MODE = ''fast-demo''")
  case True
  with assms have lx: "length X1 = 10000" and ly: "length Y1 = 10000"
    by (simp_all add: num_samples)
  from two_stage_split_counts [OF assms(1) lx ly k1_fast _ k2_fast]
  obtain d Xh yh where
    r: "train_test_split permutation X1 Y1 (fadd test_size val_size)
          = Inr (X_train d, Xh, y_train d, yh)"
       "train_test_split permutation Xh yh (fdiv test_size (fadd test_size val_size))
          = Inr (X_test d, X_val d, y_test d, y_val d)"
       "two_stage_split permutation X1 Y1 = Inr d"
    and l: "length Xh = 3001"
       "length (X_train d) = 10000 - 3001" "length (y_train d) = 10000 - 3001"
       "length (X_test d) = 3001 - 1001" "length (y_test d) = 3001 - 1001"
       "length (X_val d) = 1001" "length (y_val d) = 1001"
    by auto
  from l have l': "length (X_train d) = 6999" "length (y_train d) = 6999"
       "length (X_test d) = 2000" "length (y_test d) = 2000"
    by simp_all
  show ?thesis
    apply (rule exI [of _ d], rule exI [of _ Xh], rule exI [of _ yh])
    using True r percent_fast
    by (simp only: l l' lx if_True simp_thms) simp
next
  case False
  with assms have lx: "length X1 = 90000" and ly: "length Y1 = 90000"
    by (simp_all add: num_samples)
  from two_stage_split_counts [OF assms(1) lx ly k1_long _ k2_long]
  obtain d Xh yh where
    r: "train_test_split permutation X1 Y1 (fadd test_size val_size)
          = Inr (X_train d, Xh, y_train d, yh)"
       "train_test_split permutation Xh yh (fdiv test_size (fadd test_size val_size))
          = Inr (X_test d, X_val d, y_test d, y_val d)"
       "two_stage_split permutation X1 Y1 = Inr d"
    and l: "length Xh = 27001"
       "length (X_train d) = 90000 - 27001" "length (y_train d) = 90000 - 27001"
       "length (X_test d) = 27001 - 9001" "length (y_test d) = 27001 - 9001"
       "length (X_val d) = 9001" "length (y_val d) = 9001"
    by auto
  from l have l': "length (X_train d) = 62999" "length (y_train d) = 62999"
       "length (X_test d) = 18000" "length (y_test d) = 18000"
    by simp_all
  show ?thesis
    apply (rule exI [of _ d], rule exI [of _ Xh], rule exI [of _ yh])
    using False r percent_long
    by (simp only: l l' lx if_False simp_thms) simp
qed

text \<open>
  The amended claim for the fast run, with the identity permutation and 10000 samples.
\<close>

theorem two_stage_split_sizes_witness:
  "(\<exists>d. two_stage_split (\<lambda>n. [0..<n]) (replicate 10000 (0 :: nat)) (replicate 10000 (0 :: nat))
           = Inr d \<and>
        length (X_train d) = 6999 \<and> length (X_test d) = 2000 \<and> length (X_val d) = 1001)"
proof -
  have h1: "\<forall>n. length ((\<lambda>n. [0..<n]) n) = n" by simp
  have h2: "length (replicate 10000 (0 :: nat)) = NUM_SAMPLES (configure ''fast-demo'')"
    by (simp add: configure_def)
  from two_stage_split_sizes [of "\<lambda>n. [0..<n]" "replicate 10000 (0 :: nat)" "''fast-demo''"
         "replicate 10000 (0 :: nat)", OF h1 h2 h2]
  obtain d where
    "two_stage_split (\<lambda>n. [0..<n]) (replicate 10000 (0 :: nat)) (replicate 10000 (0 :: nat)) = Inr d"
    "length (X_train d) = (if ''fast-demo'' = ''fast-demo'' then 6999 else 62999)"
    "length (X_test d) = (if ''fast-demo'' = ''fast-demo'' then 2000 else 18000)"
    "length (X_val d) = (if ''fast-demo'' = ''fast-demo'' then 1001 else 9001)"
    by (elim exE conjE)
  then show ?thesis by (intro exI [of _ d]) simp
qed

section \<open>Properties of the scoring loop\<close>


subsection \<open>Counters of the loop\<close>

lemma score_step_total:
  "total' (score_step cl files st e) = total' st + (if processed cl files e then 1 else 0)"
  by (simp add: score_step_def processed_def split: sum.splits)


lemma score_step_printed:
  "printed (score_step cl files st e) =
     printed st @ (case score_entry cl files e of Inl err \<Rightarrow> [err] | Inr _ \<Rightarrow> [])"
  by (simp add: score_step_def split: sum.splits)

lemma scoring_loop_total:
  "total' (scoring_loop cl files es st) = total' st + length (filter (processed cl files) es)"
  by (induction es arbitrary: st) (simp_all add: score_step_total)


lemma scoring_loop_printed:
  "printed (scoring_loop cl files es st) =
     printed st @ concat (map (\<lambda>e. case score_entry cl files e of Inl err \<Rightarrow> [err] | Inr _ \<Rightarrow> []) es)"
  by (induction es arbitrary: st) (simp_all add: score_step_printed)



subsection \<open>What a processed entry went through\<close>



lemma argmax_empty: "argmax results = Inl e \<Longrightarrow> results = [] \<and> e = ValueError"
  by (cases results) (simp_all add: argmax_def)


lemma split_on_no_sep: "c \<notin> set s \<Longrightarrow> split_on c s = [s]"
  by (induction s) auto
















subsection \<open>The sample folder, evaluated\<close>

lemma sample_bad_entry:
  "score_entry sample_classes sample_files ''batch_predictions/017.Cardinal/c.jpg.out''
     = Inl JSONDecodeError"
  by code_simp

lemma sample_good_entry:
  "score_entry sample_classes sample_files ''batch_predictions/013.Bobolink/a.jpg.out''
     = Inr \<lparr>class_index = 0, actual_index = 0,
            predicted_label = ''013.Bobolink'', actual_label = ''013.Bobolink''\<rparr>"
  by code_simp

lemma sample_accuracy: "batch_accuracy sample_classes sample_files sample_entries = Inr (1 / 2)"
  by code_simp

lemma sample_loop:
  "scoring_loop sample_classes sample_files sample_entries initial_state
     = \<lparr>total' = 2, correct = 1, predicted = [0, 0], actual = [0, 1], printed = [JSONDecodeError]\<rparr>"
  by code_simp

subsection \<open>Accuracy\<close>




lemma sample_rounded:
  "round3 (5405220272770069 / 9007199254740992) = 3 / 5 \<and>
   round3 (1351980608136623 / 2251799813685248) = 3 / 5 \<and>
   fl (3 / 5) = 5404319552844595 / 9007199254740992"
  by code_simp


text \<open>
  Claim C9. The division is unguarded: with no entry at all, or with every entry failing
  in the \<^verbatim>\<open>try\<close> body, \<^verbatim>\<open>correct / total\<close> raises ZeroDivisionError; as soon as one
  entry is processed the cell yields a value.
\<close>

theorem accuracy_zero_division:
  "batch_accuracy cl files [] = Inl ZeroDivisionError \<and>
   ((\<forall>e\<in>set entries. isl (score_entry cl files e)) \<longrightarrow>
      batch_accuracy cl files entries = Inl ZeroDivisionError) \<and>
   ((\<exists>e\<in>set entries. \<not> isl (score_entry cl files e)) \<longrightarrow>
      (\<exists>a. batch_accuracy cl files entries = Inr a))"
proof -
  have t: "total' (scoring_loop cl files es initial_state) = length (filter (processed cl files) es)" for es
    by (simp add: scoring_loop_total initial_state_def)
  have e: "batch_accuracy cl files [] = Inl ZeroDivisionError"
    by (simp add: batch_accuracy_def accuracy_def initial_state_def)
  have a: "batch_accuracy cl files entries = Inl ZeroDivisionError"
    if "\<forall>e\<in>set entries. isl (score_entry cl files e)"
  proof -
    from that have "filter (processed cl files) entries = []"
      by (simp add: processed_def)
    then show ?thesis by (simp add: batch_accuracy_def accuracy_def t)
  qed
  have b: "\<exists>a. batch_accuracy cl files entries = Inr a"
    if "\<exists>e\<in>set entries. \<not> isl (score_entry cl files e)"
  proof -
    from that have "filter (processed cl files) entries \<noteq> []"
      by (simp add: processed_def filter_empty_conv)
    then show ?thesis by (simp add: batch_accuracy_def accuracy_def t)
  qed
  from e a b show ?thesis by blast
qed

text \<open>
  The theorem on the folder holding only the file that does not parse, and on the sample folder.
\<close>

theorem accuracy_zero_division_witness:
  "isl (score_entry sample_classes sample_files ''batch_predictions/017.Cardinal/c.jpg.out'') \<and>
   batch_accuracy sample_classes sample_files [''batch_predictions/017.Cardinal/c.jpg.out'']
     = Inl ZeroDivisionError \<and>
   \<not> isl (score_entry sample_classes sample_files ''batch_predictions/013.Bobolink/a.jpg.out'') \<and>
   (\<exists>a. batch_accuracy sample_classes sample_files sample_entries = Inr a)"
proof -
  have bad: "isl (score_entry sample_classes sample_files ''batch_predictions/017.Cardinal/c.jpg.out'')"
    by (simp add: sample_bad_entry)
  have good: "\<not> isl (score_entry sample_classes sample_files ''batch_predictions/013.Bobolink/a.jpg.out'')"
    by (simp add: sample_good_entry)
  from bad have h1: "\<forall>e\<in>set [''batch_predictions/017.Cardinal/c.jpg.out''].
                        isl (score_entry sample_classes sample_files e)"
    by simp
  from good have h2: "\<exists>e\<in>set sample_entries. \<not> isl (score_entry sample_classes sample_files e)"
    by (simp add: sample_entries_def)
  from accuracy_zero_division [of sample_classes sample_files
         "[''batch_predictions/017.Cardinal/c.jpg.out'']"] h1
  have z: "batch_accuracy sample_classes sample_files [''batch_predictions/017.Cardinal/c.jpg.out'']
             = Inl ZeroDivisionError"
    by blast
  from accuracy_zero_division [of sample_classes sample_files sample_entries] h2
  have v: "\<exists>a. batch_accuracy sample_classes sample_files sample_entries = Inr a"
    by blast
  from bad z good v show ?thesis by blast
qed

subsection \<open>Failures\<close>

lemma write_records_short:
  "\<exists>i\<in>set idx. \<not> i < length y \<Longrightarrow> fst (write_records x y idx w) = Some IndexError"
  by (induction idx arbitrary: w) auto

lemma convert_to_tfr_short:
  "length y < length x \<Longrightarrow> fst (convert_to_tfr x y out_file fs) = Some IndexError"
proof -
  assume l: "length y < length x"
  then have "\<exists>i\<in>set [0..<length x]. \<not> i < length y" by auto
  from write_records_short [OF this, of x "[]"] show ?thesis
    by (auto simp add: convert_to_tfr_def split: prod.splits)
qed

lemma save_to_n_files_bad_count:
  "n_files \<le> 0 \<Longrightarrow> save_to_n_files x y n_files channel fs = (Some ValueError, fs)"
  by (simp add: save_to_n_files_def array_split_def)

lemma score_step_error:
  "score_entry cl files e = Inl err \<Longrightarrow>
   score_step cl files st e = st\<lparr>printed := printed st @ [err]\<rparr>"
  by (simp add: score_step_def)

text \<open>
  Claim C4 as stated fails: an error raised while one prediction file is processed does
  not reach the caller. In the sample folder the third file does not parse, and the cells
  still produce an accuracy.
\<close>

theorem error_swallowed_counterexample:
  "''batch_predictions/017.Cardinal/c.jpg.out'' \<in> set sample_entries \<and>
   score_entry sample_classes sample_files ''batch_predictions/017.Cardinal/c.jpg.out''
     = Inl JSONDecodeError \<and>
   batch_accuracy sample_classes sample_files sample_entries = Inr (1 / 2) \<and>
   batch_accuracy sample_classes sample_files sample_entries \<noteq> Inl JSONDecodeError \<and>
   printed (scoring_loop sample_classes sample_files sample_entries initial_state)
     = [JSONDecodeError]"
proof -
  have m: "''batch_predictions/017.Cardinal/c.jpg.out'' \<in> set sample_entries"
    by (simp add: sample_entries_def)
  have n: "batch_accuracy sample_classes sample_files sample_entries \<noteq> Inl JSONDecodeError"
    by (simp add: sample_accuracy)
  have p: "printed (scoring_loop sample_classes sample_files sample_entries initial_state)
             = [JSONDecodeError]"
    by (simp add: sample_loop)
  show ?thesis by (intro conjI m sample_bad_entry sample_accuracy n p)
qed

text \<open>
  Claim C4, amended. The scoring loop catches every exception raised while a prediction
  file is processed: the iteration only prints the error, the counters and lists stay as
  they were, and the loop goes on, so that after the loop the errors printed are those of
  the failing entries in order and \<open>total\<close> counts the others. The operations without a
  handler let the error through: \<^verbatim>\<open>convert_to_tfr\<close> with fewer labels than samples raises
  IndexError, \<^verbatim>\<open>save_to_n_files\<close> with a file count below one raises ValueError before
  anything is written, and the accuracy division with \<open>total = 0\<close> raises
  ZeroDivisionError.
\<close>

theorem scoring_loop_handles_errors:
  "(\<forall>err. score_entry cl files e = Inl err \<longrightarrow>
          score_step cl files st e = st\<lparr>printed := printed st @ [err]\<rparr>) \<and>
   printed (scoring_loop cl files entries initial_state)
     = concat (map (\<lambda>e. case score_entry cl files e of Inl err \<Rightarrow> [err] | Inr _ \<Rightarrow> []) entries) \<and>
   total' (scoring_loop cl files entries initial_state)
     = length (filter (\<lambda>e. \<not> isl (score_entry cl files e)) entries) \<and>
   (length y < length x \<longrightarrow> fst (convert_to_tfr x y out_file fs) = Some IndexError) \<and>
   (n_files \<le> 0 \<longrightarrow> save_to_n_files x y n_files channel fs = (Some ValueError, fs)) \<and>
   (total' st = 0 \<longrightarrow> accuracy st = Inl ZeroDivisionError)"
proof -
  have a: "\<forall>err. score_entry cl files e = Inl err \<longrightarrow>
          score_step cl files st e = st\<lparr>printed := printed st @ [err]\<rparr>"
    by (simp add: score_step_error)
  have b: "printed (scoring_loop cl files entries initial_state)
     = concat (map (\<lambda>e. case score_entry cl files e of Inl err \<Rightarrow> [err] | Inr _ \<Rightarrow> []) entries)"
    by (simp add: scoring_loop_printed initial_state_def)
  have c: "total' (scoring_loop cl files entries initial_state)
     = length (filter (\<lambda>e. \<not> isl (score_entry cl files e)) entries)"
    by (simp add: scoring_loop_total initial_state_def processed_def [abs_def])
  have d: "length y < length x \<longrightarrow> fst (convert_to_tfr x y out_file fs) = Some IndexError"
    by (simp add: convert_to_tfr_short)
  have e: "n_files \<le> 0 \<longrightarrow> save_to_n_files x y n_files channel fs = (Some ValueError, fs)"
    by (simp add: save_to_n_files_bad_count)
  have f: "total' st = 0 \<longrightarrow> accuracy st = Inl ZeroDivisionError"
    by (simp add: accuracy_def)
  show ?thesis by (intro conjI a b c d e f)
qed

text \<open>
  The amended claim on the sample folder and on small inputs.
\<close>

theorem scoring_loop_handles_errors_witness:
  "score_entry sample_classes sample_files ''batch_predictions/017.Cardinal/c.jpg.out''
     = Inl JSONDecodeError \<and>
   score_step sample_classes sample_files initial_state ''batch_predictions/017.Cardinal/c.jpg.out''
     = initial_state\<lparr>printed := printed initial_state @ [JSONDecodeError]\<rparr> \<and>
   length [0 :: label] < length [[1 :: rat], [2]] \<and>
   fst (convert_to_tfr [[1 :: rat], [2]] [0] ''f'' Map.empty) = Some IndexError \<and>
   (0 :: int) \<le> 0 \<and>
   save_to_n_files [[1 :: rat], [2]] [0] 0 ''train'' Map.empty = (Some ValueError, Map.empty) \<and>
   total' initial_state = 0 \<and> accuracy initial_state = Inl ZeroDivisionError"
proof -
  note t = scoring_loop_handles_errors
    [of sample_classes sample_files "''batch_predictions/017.Cardinal/c.jpg.out''" initial_state
        "[]" "[0 :: label]" "[[1 :: rat], [2]]" "''f''" Map.empty 0 "''train''"]
  have h1: "length [0 :: label] < length [[1 :: rat], [2]]" by simp
  have h2: "(0 :: int) \<le> 0" by simp
  have h3: "total' initial_state = 0" by (simp add: initial_state_def)
  note a = t [THEN conjunct1, rule_format, OF sample_bad_entry]
  note d = t [THEN conjunct2, THEN conjunct2, THEN conjunct2, THEN conjunct1, rule_format, OF h1]
  note e = t [THEN conjunct2, THEN conjunct2, THEN conjunct2, THEN conjunct2, THEN conjunct1,
              rule_format, OF h2]
  note f = t [THEN conjunct2, THEN conjunct2, THEN conjunct2, THEN conjunct2, THEN conjunct2,
              rule_format, OF h3]
  show ?thesis by (intro conjI sample_bad_entry a h1 d h2 e h3 f)
qed

section \<open>Properties of the serving image name\<close>


lemma suffix_same_length: "length a = length b \<Longrightarrow> suffix a (v @ b) \<longleftrightarrow> a = b"
  by (auto simp add: suffix_def)

lemma takeWhile_upto:
  "c \<notin> set a \<Longrightarrow> takeWhile (\<lambda>x. x \<noteq> c) (a @ c # rest) = a"
  by (induction a) auto

lemma dropWhile_upto:
  "c \<notin> set a \<Longrightarrow> dropWhile (\<lambda>x. x \<noteq> c) (a @ c # rest) = c # rest"
  by (induction a) auto

lemma framework_image_parse:
  assumes "CHR ''/'' \<notin> set region_name"
  shows "image_account (framework_image v gpu region_name)
           = (if v = ''1.12'' then ''520713654638'' else ''763104351884'') \<and>
         image_registry (framework_image v gpu region_name)
           = image_account (framework_image v gpu region_name)
             @ ''.dkr.ecr.'' @ region_name @ ''.amazonaws.com'' \<and>
         image_repository (framework_image v gpu region_name)
           = (if v = ''1.12'' then ''sagemaker-tensorflow-serving'' else ''tensorflow-inference'') \<and>
         image_tag (framework_image v gpu region_name) = v @ (if gpu then ''-gpu'' else ''-cpu'') \<and>
         prefix v (image_tag (framework_image v gpu region_name)) \<and>
         (suffix ''-gpu'' (image_tag (framework_image v gpu region_name)) \<longleftrightarrow> gpu) \<and>
         (suffix ''-cpu'' (image_tag (framework_image v gpu region_name)) \<longleftrightarrow> \<not> gpu) \<and>
         (image_account (framework_image v gpu region_name) = ''520713654638'' \<longleftrightarrow> v = ''1.12'') \<and>
         (image_repository (framework_image v gpu region_name) = ''sagemaker-tensorflow-serving''
            \<longleftrightarrow> v = ''1.12'')"
proof -
  let ?img = "framework_image v gpu region_name"
  let ?sfx = "if gpu then ''-gpu'' else ''-cpu''"
  have img: "?img = TF_ACCOUNT_NUM v @ ''.dkr.ecr.'' @ region_name @ ''.amazonaws.com/''
                    @ TF_CONTAINER_NAME v @ '':'' @ v @ ?sfx"
    by (simp add: framework_image_def)
  have acc: "image_account ?img = TF_ACCOUNT_NUM v"
    by (simp add: img image_account_def TF_ACCOUNT_NUM_def)
  have tw: "takeWhile (\<lambda>c. c \<noteq> CHR ''/'') (a @ r @ CHR ''/'' # rest) = a @ r"
    if "CHR ''/'' \<notin> set a" "CHR ''/'' \<notin> set r" for a r rest
    using that takeWhile_upto [of "CHR ''/''" "a @ r" rest] by simp
  have dw: "dropWhile (\<lambda>c. c \<noteq> CHR ''/'') (a @ r @ CHR ''/'' # rest) = CHR ''/'' # rest"
    if "CHR ''/'' \<notin> set a" "CHR ''/'' \<notin> set r" for a r rest
    using that dropWhile_upto [of "CHR ''/''" "a @ r" rest] by simp
  have shape: "?img = (TF_ACCOUNT_NUM v @ ''.dkr.ecr.'') @ (region_name @ ''.amazonaws.com'')
                      @ CHR ''/'' # (TF_CONTAINER_NAME v @ '':'' @ v @ ?sfx)"
    by (simp add: img)
  have na: "CHR ''/'' \<notin> set (TF_ACCOUNT_NUM v @ ''.dkr.ecr.'')"
    by (simp add: TF_ACCOUNT_NUM_def)
  have nr: "CHR ''/'' \<notin> set (region_name @ ''.amazonaws.com'')"
    using assms by simp
  have reg: "image_registry ?img = TF_ACCOUNT_NUM v @ ''.dkr.ecr.'' @ region_name @ ''.amazonaws.com''"
    unfolding image_registry_def by (subst shape, subst tw [OF na nr]) simp
  have rest: "drop 1 (dropWhile (\<lambda>c. c \<noteq> CHR ''/'') ?img) = TF_CONTAINER_NAME v @ '':'' @ v @ ?sfx"
    by (subst shape, subst dw [OF na nr]) simp
  have repo: "image_repository ?img = TF_CONTAINER_NAME v"
    unfolding image_repository_def rest by (simp add: TF_CONTAINER_NAME_def)
  have tag: "image_tag ?img = v @ ?sfx"
    unfolding image_tag_def rest by (simp add: TF_CONTAINER_NAME_def)
  have s1: "suffix ''-gpu'' (v @ ?sfx) \<longleftrightarrow> gpu"
    using suffix_same_length [of "''-gpu''" ?sfx v] by simp
  have s2: "suffix ''-cpu'' (v @ ?sfx) \<longleftrightarrow> \<not> gpu"
    using suffix_same_length [of "''-cpu''" ?sfx v] by simp
  show ?thesis
    unfolding acc reg repo tag using s1 s2
    by (simp add: TF_ACCOUNT_NUM_def TF_CONTAINER_NAME_def)
qed

lemma framework_image_suffix:
  "(suffix ''-gpu'' (framework_image v gpu region_name) \<longleftrightarrow> gpu) \<and>
   (suffix ''-cpu'' (framework_image v gpu region_name) \<longleftrightarrow> \<not> gpu)"
proof -
  let ?sfx = "if gpu then ''-gpu'' else ''-cpu''"
  let ?front = "TF_ACCOUNT_NUM v @ ''.dkr.ecr.'' @ region_name @ ''.amazonaws.com/''
                @ TF_CONTAINER_NAME v @ '':'' @ v"
  have img: "framework_image v gpu region_name = ?front @ ?sfx"
    by (simp add: framework_image_def)
  show ?thesis
    unfolding img
    using suffix_same_length [of "''-gpu''" ?sfx ?front] suffix_same_length [of "''-cpu''" ?sfx ?front]
    by simp
qed

text \<open>
  Claim C7. The image name is a function of the framework version, the processor flag and
  the region. It is the account, \<^verbatim>\<open>.dkr.ecr.\<close>, the region, \<^verbatim>\<open>.amazonaws.com/\<close>, the
  repository, a colon, the version and the processor suffix, where the account is
  \<^verbatim>\<open>520713654638\<close> and the repository \<^verbatim>\<open>sagemaker-tensorflow-serving\<close> exactly when the
  version is \<^verbatim>\<open>1.12\<close>, and otherwise \<^verbatim>\<open>763104351884\<close> and \<^verbatim>\<open>tensorflow-inference\<close>. The
  name ends in \<^verbatim>\<open>-gpu\<close> exactly when the flag is set and in \<^verbatim>\<open>-cpu\<close> otherwise. When the
  region contains no slash, reading the name back gives this registry, this repository
  and the tag, which begins with the version and ends in the processor suffix.
\<close>

theorem framework_image_parts:
  "framework_image v gpu region_name
     = (if v = ''1.12'' then ''520713654638'' else ''763104351884'') @ ''.dkr.ecr.'' @ region_name
       @ ''.amazonaws.com/''
       @ (if v = ''1.12'' then ''sagemaker-tensorflow-serving'' else ''tensorflow-inference'')
       @ '':'' @ v @ (if gpu then ''-gpu'' else ''-cpu'') \<and>
   (suffix ''-gpu'' (framework_image v gpu region_name) \<longleftrightarrow> gpu) \<and>
   (suffix ''-cpu'' (framework_image v gpu region_name) \<longleftrightarrow> \<not> gpu) \<and>
   (image_account (framework_image v gpu region_name) = ''520713654638'' \<longleftrightarrow> v = ''1.12'') \<and>
   (image_account (framework_image v gpu region_name) = ''763104351884'' \<longleftrightarrow> v \<noteq> ''1.12'') \<and>
   (CHR ''/'' \<notin> set region_name \<longrightarrow>
      image_registry (framework_image v gpu region_name)
        = image_account (framework_image v gpu region_name)
          @ ''.dkr.ecr.'' @ region_name @ ''.amazonaws.com'' \<and>
      (image_repository (framework_image v gpu region_name) = ''sagemaker-tensorflow-serving''
         \<longleftrightarrow> v = ''1.12'') \<and>
      (image_repository (framework_image v gpu region_name) = ''tensorflow-inference''
         \<longleftrightarrow> v \<noteq> ''1.12'') \<and>
      image_tag (framework_image v gpu region_name) = v @ (if gpu then ''-gpu'' else ''-cpu'') \<and>
      prefix v (image_tag (framework_image v gpu region_name)) \<and>
      (suffix ''-gpu'' (image_tag (framework_image v gpu region_name)) \<longleftrightarrow> gpu) \<and>
      (suffix ''-cpu'' (image_tag (framework_image v gpu region_name)) \<longleftrightarrow> \<not> gpu))"
proof -
  let ?img = "framework_image v gpu region_name"
  have a: "?img = (if v = ''1.12'' then ''520713654638'' else ''763104351884'') @ ''.dkr.ecr.''
       @ region_name @ ''.amazonaws.com/''
       @ (if v = ''1.12'' then ''sagemaker-tensorflow-serving'' else ''tensorflow-inference'')
       @ '':'' @ v @ (if gpu then ''-gpu'' else ''-cpu'')"
    by (simp add: framework_image_def TF_ACCOUNT_NUM_def TF_CONTAINER_NAME_def)
  have acc: "image_account ?img = (if v = ''1.12'' then ''520713654638'' else ''763104351884'')"
    by (simp add: framework_image_def image_account_def TF_ACCOUNT_NUM_def)
  have b: "(image_account ?img = ''520713654638'' \<longleftrightarrow> v = ''1.12'') \<and>
           (image_account ?img = ''763104351884'' \<longleftrightarrow> v \<noteq> ''1.12'')"
    unfolding acc by simp
  have c: "image_registry ?img = image_account ?img @ ''.dkr.ecr.'' @ region_name @ ''.amazonaws.com'' \<and>
      (image_repository ?img = ''sagemaker-tensorflow-serving'' \<longleftrightarrow> v = ''1.12'') \<and>
      (image_repository ?img = ''tensorflow-inference'' \<longleftrightarrow> v \<noteq> ''1.12'') \<and>
      image_tag ?img = v @ (if gpu then ''-gpu'' else ''-cpu'') \<and>
      prefix v (image_tag ?img) \<and>
      (suffix ''-gpu'' (image_tag ?img) \<longleftrightarrow> gpu) \<and>
      (suffix ''-cpu'' (image_tag ?img) \<longleftrightarrow> \<not> gpu)"
    if r: "CHR ''/'' \<notin> set region_name"
  proof -
    have "image_repository ?img
            = (if v = ''1.12'' then ''sagemaker-tensorflow-serving'' else ''tensorflow-inference'')"
      using framework_image_parse [OF r, of v gpu] by blast
    then have "(image_repository ?img = ''sagemaker-tensorflow-serving'' \<longleftrightarrow> v = ''1.12'') \<and>
               (image_repository ?img = ''tensorflow-inference'' \<longleftrightarrow> v \<noteq> ''1.12'')"
      by simp
    with framework_image_parse [OF r, of v gpu] show ?thesis by blast
  qed
  from a framework_image_suffix [of v gpu region_name] b c show ?thesis by blast
qed

text \<open>
  The theorem at the notebook's own settings in region \<^verbatim>\<open>us-east-1\<close>.
\<close>

theorem framework_image_parts_witness:
  "CHR ''/'' \<notin> set ''us-east-1'' \<and>
   image_account (framework_image ''1.14'' True ''us-east-1'') = ''763104351884'' \<and>
   image_repository (framework_image ''1.14'' True ''us-east-1'') = ''tensorflow-inference'' \<and>
   image_tag (framework_image ''1.14'' True ''us-east-1'') = ''1.14-gpu''"
proof -
  have h: "CHR ''/'' \<notin> set ''us-east-1''" by simp
  have ne: "''1.14'' \<noteq> ''1.12''" by simp
  note t = framework_image_parts [of "''1.14''" True "''us-east-1''"]
  from t h have tag: "image_tag (framework_image ''1.14'' True ''us-east-1'')
                        = ''1.14'' @ (if True then ''-gpu'' else ''-cpu'')"
    by blast
  from t ne have acc: "image_account (framework_image ''1.14'' True ''us-east-1'') = ''763104351884''"
    by blast
  from t h ne have repo: "image_repository (framework_image ''1.14'' True ''us-east-1'')
                            = ''tensorflow-inference''"
    by blast
  from h tag acc repo show ?thesis by simp
qed

section \<open>Properties of the S3 clean-up\<close>


lemma objects_filter_delete_frame:
  "b \<noteq> bucket \<or> \<not> prefix p k \<Longrightarrow> objects_filter_delete bucket p store (b, k) = store (b, k)"
  by (auto simp add: objects_filter_delete_def)

lemma objects_filter_delete_gone:
  "prefix p k \<Longrightarrow> objects_filter_delete bucket p store (bucket, k) = None"
  by (simp add: objects_filter_delete_def)

lemma upload_data_frame:
  "b \<noteq> bucket \<or> \<not> prefix (key_prefix @ ''/'') k \<Longrightarrow>
   upload_data bucket local_data key_prefix store (b, k) = store (b, k)"
proof (induction local_data arbitrary: store)
  case Nil
  then show ?case by simp
next
  case (Cons f rest)
  obtain rel content where f: "f = (rel, content)" by (cases f)
  have ne: "(b, k) \<noteq> (bucket, key_prefix @ ''/'' @ rel)"
  proof
    assume "(b, k) = (bucket, key_prefix @ ''/'' @ rel)"
    then have "b = bucket" and "k = (key_prefix @ ''/'') @ rel" by simp_all
    then have "b = bucket" and "prefix (key_prefix @ ''/'') k" by (simp_all del: append_assoc)
    with Cons.prems show False by blast
  qed
  have "upload_data bucket (f # rest) key_prefix store (b, k)
          = upload_data bucket rest key_prefix
              (store((bucket, key_prefix @ ''/'' @ rel) \<mapsto> content)) (b, k)"
    by (simp add: f)
  also have "\<dots> = (store((bucket, key_prefix @ ''/'' @ rel) \<mapsto> content)) (b, k)"
    by (rule Cons.IH [OF Cons.prems])
  also have "\<dots> = store (b, k)"
    by (rule fun_upd_other [OF ne])
  finally show ?case .
qed

text \<open>
  Claim C10. The clearing before the upload and the S3 statement of the final clean-up
  remove the objects of the session's bucket whose key begins with
  \<^verbatim>\<open>data/DEMO-hello-pipe-mode/\<close>, and leave every object of that bucket with another key,
  and every object of another bucket, as it was. The same frame holds for the whole upload
  cell, whose uploads all go under that prefix.
\<close>

theorem s3_cleanup_frame:
  "(\<forall>b k. b \<noteq> bucket \<or> \<not> prefix ''data/DEMO-hello-pipe-mode/'' k \<longrightarrow>
           clear_old_data bucket store (b, k) = store (b, k) \<and>
           teardown_s3 bucket store (b, k) = store (b, k)) \<and>
   (\<forall>k. prefix ''data/DEMO-hello-pipe-mode/'' k \<longrightarrow>
         clear_old_data bucket store (bucket, k) = None \<and>
         teardown_s3 bucket store (bucket, k) = None) \<and>
   (\<forall>b k. b \<noteq> bucket \<or> \<not> prefix ''data/DEMO-hello-pipe-mode/'' k \<longrightarrow>
           upload_cell bucket local_data store (b, k) = store (b, k))"
proof -
  have p: "data_prefix @ ''/'' = ''data/DEMO-hello-pipe-mode/''"
    by (simp add: data_prefix_def)
  have a: "clear_old_data bucket store (b, k) = store (b, k) \<and>
           teardown_s3 bucket store (b, k) = store (b, k)"
    if "b \<noteq> bucket \<or> \<not> prefix ''data/DEMO-hello-pipe-mode/'' k" for b k
    using that objects_filter_delete_frame [of b bucket "''data/DEMO-hello-pipe-mode/''" k store]
    by (simp add: clear_old_data_def teardown_s3_def p)
  have g: "clear_old_data bucket store (bucket, k) = None \<and>
           teardown_s3 bucket store (bucket, k) = None"
    if "prefix ''data/DEMO-hello-pipe-mode/'' k" for k
    using that objects_filter_delete_gone [of "''data/DEMO-hello-pipe-mode/''" k bucket store]
    by (simp add: clear_old_data_def teardown_s3_def p)
  have u: "upload_cell bucket local_data store (b, k) = store (b, k)"
    if h: "b \<noteq> bucket \<or> \<not> prefix ''data/DEMO-hello-pipe-mode/'' k" for b k
  proof -
    have "upload_cell bucket local_data store (b, k) = clear_old_data bucket store (b, k)"
      unfolding upload_cell_def
      using h upload_data_frame [of b bucket data_prefix k local_data "clear_old_data bucket store"]
      by (simp add: p)
    with a [OF h] show ?thesis by simp
  qed
  from a g u show ?thesis by blast
qed

lemma sample_store_2: "sample_store (''b1'', ''data/DEMO-hello-pipe-mode-old/x'') = Some 2"
  by (simp add: sample_store_def)

lemma sample_store_3: "sample_store (''b2'', ''data/DEMO-hello-pipe-mode/train0'') = Some 3"
  by (simp add: sample_store_def)

text \<open>
  The theorem on a store with one object under the prefix, one beside it and one in another bucket.
\<close>

theorem s3_cleanup_frame_witness:
  "clear_old_data ''b1'' sample_store (''b1'', ''data/DEMO-hello-pipe-mode/train0'') = None \<and>
   teardown_s3 ''b1'' sample_store (''b1'', ''data/DEMO-hello-pipe-mode-old/x'') = Some 2 \<and>
   teardown_s3 ''b1'' sample_store (''b2'', ''data/DEMO-hello-pipe-mode/train0'') = Some 3"
proof -
  note t = s3_cleanup_frame [of "''b1''" sample_store "[]"]
  note frame = t [THEN conjunct1, rule_format]
  note gone = t [THEN conjunct2, THEN conjunct1, rule_format]
  have p1: "prefix ''data/DEMO-hello-pipe-mode/'' ''data/DEMO-hello-pipe-mode/train0''"
    by simp
  have p2: "''b1'' \<noteq> ''b1'' \<or> \<not> prefix ''data/DEMO-hello-pipe-mode/'' ''data/DEMO-hello-pipe-mode-old/x''"
    by simp
  have p3: "''b2'' \<noteq> ''b1'' \<or> \<not> prefix ''data/DEMO-hello-pipe-mode/'' ''data/DEMO-hello-pipe-mode/train0''"
    by simp
  have a: "clear_old_data ''b1'' sample_store (''b1'', ''data/DEMO-hello-pipe-mode/train0'') = None"
    using gone [OF p1] by (rule conjunct1)
  have b: "teardown_s3 ''b1'' sample_store (''b1'', ''data/DEMO-hello-pipe-mode-old/x'') = Some 2"
    using frame [OF p2, THEN conjunct2] sample_store_2 by (rule trans)
  have c: "teardown_s3 ''b1'' sample_store (''b2'', ''data/DEMO-hello-pipe-mode/train0'') = Some 3"
    using frame [OF p3, THEN conjunct2] sample_store_3 by (rule trans)
  show ?thesis by (intro conjI a b c)
qed

section \<open>Order of the steps of the notebooks\<close>


lemma in_order_simps:
  "in_order a b \<longleftrightarrow> (\<forall>p q. step_of a = Some p \<and> step_of b = Some q \<longrightarrow> rank p \<le> rank q)"
  by (auto simp add: in_order_def split: option.splits)

lemma no_step_in_order: "step_of a = None \<Longrightarrow> in_order a b \<and> in_order b a"
  by (simp add: in_order_def split: option.splits)


































end
